theory Spec2Isabelle
  imports Complex_Main
begin

section \<open>Entity model\<close>

text \<open>
  JavaScript numbers are modelled as mathematical reals (positions, velocities, masses) and,
  where the source only ever holds whole numbers (team counters, scores, millisecond clock
  readings), as integers. The rounding of IEEE doubles is written out where a statement
  depends on it, in the rounding of the snapshot; elsewhere the arithmetic is exact.
  \<open>NaN\<close> and \<open>Infinity\<close> are outside the model.

  The physics engine reads its arguments by field name only: a vector literal has \<open>x\<close> and
  \<open>y\<close>, the ball adds \<open>vx\<close> and \<open>vy\<close>, a player adds its own fields. Record extension
  gives the same structure, so one definition of each physics operation serves vectors,
  the ball and players alike.
\<close>

record vec =
  x :: real
  y :: real

record body = vec +
  vx :: real
  vy :: real

text \<open>\<open>Player.team\<close> is \<open>'red'\<close>, \<open>'blue'\<close> or \<open>null\<close> (spectator): \<open>team option\<close>.\<close>

datatype team = Red | Blue

record input =
  up :: bool
  down :: bool
  left :: bool
  right :: bool

text \<open>
  \<open>class Player\<close> of \<open>src/server/player.js\<close>. The field \<open>id\<close> is named \<open>pid\<close> and the
  player's \<open>score\<close> is named \<open>playerScore\<close>, since \<open>id\<close> is a HOL constant and \<open>score\<close> is
  also a field of the game state.
\<close>

record player = body +
  pid :: string
  nickname :: string
  roomCode :: "string option"
  team :: "team option"
  isReady :: bool
  playerScore :: int
  input :: input
  lastSeen :: int
  ping :: int

section \<open>PhysicsEngine\<close>

text \<open>The constructor's constants (\<open>src/unnamed/part_001\<close>, lines 3-11).\<close>

definition friction :: real where "friction = 98 / 100"
definition bounceRestitution :: real where "bounceRestitution = 8 / 10"
definition playerRadius :: real where "playerRadius = 15"
definition ballRadius :: real where "ballRadius = 10"
definition maxSpeed :: real where "maxSpeed = 5"
definition acceleration :: real where "acceleration = 5 / 10"

text \<open>The field constants, local to \<open>constrainToBounds\<close> and \<open>checkGoal\<close> in the source.\<close>

definition fieldWidth :: real where "fieldWidth = 800"
definition fieldHeight :: real where "fieldHeight = 400"
definition goalHeight :: real where "goalHeight = 80"
definition goalDepth :: real where "goalDepth = 20"
definition goalTop :: real where "goalTop = (fieldHeight - goalHeight) / 2"
definition goalBottom :: real where "goalBottom = goalTop + goalHeight"

definition distance :: "'a vec_scheme \<Rightarrow> 'b vec_scheme \<Rightarrow> real" where
  "distance obj1 obj2 =
     (let dx = x obj1 - x obj2;
          dy = y obj1 - y obj2
      in sqrt (dx * dx + dy * dy))"

definition normalize :: "'a vec_scheme \<Rightarrow> vec" where
  "normalize vector =
     (let magnitude = sqrt (x vector * x vector + y vector * y vector)
      in if magnitude = 0 then \<lparr>x = 0, y = 0\<rparr>
         else \<lparr>x = x vector / magnitude, y = y vector / magnitude\<rparr>)"

definition dotProduct :: "'a vec_scheme \<Rightarrow> 'b vec_scheme \<Rightarrow> real" where
  "dotProduct v1 v2 = x v1 * x v2 + y v1 * y v2"

text \<open>
  \<open>constrainToBounds(obj, radius)\<close>: four independent \<open>if\<close> statements run in sequence, each
  reading the object as the previous one left it.
\<close>

definition constrainToBounds :: "'a body_scheme \<Rightarrow> real \<Rightarrow> 'a body_scheme" where
  "constrainToBounds obj radius =
     (let o1 = (if x obj - radius < 0 then
                  (if y obj \<ge> goalTop \<and> y obj \<le> goalBottom then
                     (if x obj - radius < - goalDepth
                      then obj\<lparr>x := - goalDepth + radius, vx := \<bar>vx obj\<bar> * bounceRestitution\<rparr>
                      else obj)
                   else obj\<lparr>x := radius, vx := \<bar>vx obj\<bar> * bounceRestitution\<rparr>)
                else obj);
          o2 = (if x o1 + radius > fieldWidth then
                  (if y o1 \<ge> goalTop \<and> y o1 \<le> goalBottom then
                     (if x o1 + radius > fieldWidth + goalDepth
                      then o1\<lparr>x := fieldWidth + goalDepth - radius,
                              vx := - \<bar>vx o1\<bar> * bounceRestitution\<rparr>
                      else o1)
                   else o1\<lparr>x := fieldWidth - radius, vx := - \<bar>vx o1\<bar> * bounceRestitution\<rparr>)
                else o1);
          o3 = (if y o2 - radius < 0
                then o2\<lparr>y := radius, vy := \<bar>vy o2\<bar> * bounceRestitution\<rparr>
                else o2);
          o4 = (if y o3 + radius > fieldHeight
                then o3\<lparr>y := fieldHeight - radius, vy := - \<bar>vy o3\<bar> * bounceRestitution\<rparr>
                else o3)
      in o4)"

text \<open>
  \<open>updatePlayer(player, input, deltaTime)\<close>: input forces, speed limit, friction, position
  update, bounds; each \<open>p\<^sub>i\<close> is the player after one statement of the source.
\<close>

definition updatePlayer :: "player \<Rightarrow> input \<Rightarrow> real \<Rightarrow> player" where
  "updatePlayer p inp deltaTime =
     (let p1 = (if up inp then p\<lparr>vy := vy p - acceleration\<rparr> else p);
          p2 = (if down inp then p1\<lparr>vy := vy p1 + acceleration\<rparr> else p1);
          p3 = (if left inp then p2\<lparr>vx := vx p2 - acceleration\<rparr> else p2);
          p4 = (if right inp then p3\<lparr>vx := vx p3 + acceleration\<rparr> else p3);
          speed = sqrt (vx p4 * vx p4 + vy p4 * vy p4);
          p5 = (if speed > maxSpeed
                then p4\<lparr>vx := (vx p4 / speed) * maxSpeed, vy := (vy p4 / speed) * maxSpeed\<rparr>
                else p4);
          p6 = p5\<lparr>vx := vx p5 * friction, vy := vy p5 * friction\<rparr>;
          p7 = p6\<lparr>x := x p6 + vx p6 * deltaTime, y := y p6 + vy p6 * deltaTime\<rparr>
      in constrainToBounds p7 playerRadius)"

definition updateBall :: "body \<Rightarrow> real \<Rightarrow> body" where
  "updateBall b deltaTime =
     (let b1 = b\<lparr>vx := vx b * friction, vy := vy b * friction\<rparr>;
          b2 = b1\<lparr>x := x b1 + vx b1 * deltaTime, y := y b1 + vy b1 * deltaTime\<rparr>
      in constrainToBounds b2 ballRadius)"

definition checkCollision :: "'a vec_scheme \<Rightarrow> 'b vec_scheme \<Rightarrow> real \<Rightarrow> real \<Rightarrow> bool" where
  "checkCollision obj1 obj2 radius1 radius2 = (distance obj1 obj2 < radius1 + radius2)"

text \<open>
  \<open>resolveCollision(obj1, obj2, radius1, radius2, mass1, mass2)\<close> mutates both objects; the
  model returns the pair. The two early \<open>return\<close>s are the two \<open>if\<close> branches that stop.
  The source divides by the masses: with a zero mass JavaScript yields \<open>Infinity\<close> and
  \<open>NaN\<close>, which the model does not reproduce; the conservation statement below takes
  positive masses, as every call in the source passes, and no statement below is about a
  zero mass.
\<close>

definition resolveCollision ::
  "'a body_scheme \<Rightarrow> 'b body_scheme \<Rightarrow> real \<Rightarrow> real \<Rightarrow> real \<Rightarrow> real
     \<Rightarrow> 'a body_scheme \<times> 'b body_scheme" where
  "resolveCollision obj1 obj2 radius1 radius2 mass1 mass2 =
     (let dist = distance obj1 obj2;
          minDistance = radius1 + radius2
      in if dist \<ge> minDistance then (obj1, obj2)
         else
           let dx = x obj2 - x obj1;
               dy = y obj2 - y obj1;
               normal = normalize \<lparr>x = dx, y = dy\<rparr>;
               overlap = minDistance - dist;
               separation = overlap / 2;
               a = obj1\<lparr>x := x obj1 - x normal * separation,
                         y := y obj1 - y normal * separation\<rparr>;
               b = obj2\<lparr>x := x obj2 + x normal * separation,
                         y := y obj2 + y normal * separation\<rparr>;
               relativeVelocity = \<lparr>x = vx b - vx a, y = vy b - vy a\<rparr>;
               velocityAlongNormal = dotProduct relativeVelocity normal
           in if velocityAlongNormal > 0 then (a, b)
              else
                let restitution = bounceRestitution;
                    impulseScalar =
                      - (1 + restitution) * velocityAlongNormal / (1 / mass1 + 1 / mass2);
                    impulse = \<lparr>x = impulseScalar * x normal, y = impulseScalar * y normal\<rparr>
                in (a\<lparr>vx := vx a - x impulse / mass1, vy := vy a - y impulse / mass1\<rparr>,
                    b\<lparr>vx := vx b + x impulse / mass2, vy := vy b + y impulse / mass2\<rparr>))"

text \<open>\<open>checkGoal(ball)\<close> returns \<open>'blue'\<close>, \<open>'red'\<close> or \<open>null\<close>.\<close>

definition checkGoal :: "'a body_scheme \<Rightarrow> team option" where
  "checkGoal b =
     (if x b < 0 \<and> y b \<ge> goalTop \<and> y b \<le> goalBottom then Some Blue
      else if x b > fieldWidth \<and> y b \<ge> goalTop \<and> y b \<le> goalBottom then Some Red
      else None)"

definition resetBall :: "body \<Rightarrow> body" where
  "resetBall b = b\<lparr>x := 400, y := 200, vx := 0, vy := 0\<rparr>"

section \<open>Player\<close>

text \<open>The constructor \<open>new Player(id, nickname)\<close>; \<open>now\<close> is its reading of the clock.\<close>

definition newPlayer :: "string \<Rightarrow> string \<Rightarrow> int \<Rightarrow> player" where
  "newPlayer i n now =
     \<lparr>x = 100, y = 200, vx = 0, vy = 0,
      pid = i, nickname = n, roomCode = None, team = None, isReady = False, playerScore = 0,
      input = \<lparr>up = False, down = False, left = False, right = False\<rparr>,
      lastSeen = now, ping = 0\<rparr>"

text \<open>\<open>setTeam(team)\<close>: the team, the fixed spot of that team, zero velocity.\<close>

definition setTeam :: "player \<Rightarrow> team option \<Rightarrow> player" where
  "setTeam p t =
     (let p1 = p\<lparr>team := t\<rparr>;
          p2 = (if t = Some Red then p1\<lparr>x := 100, y := 200\<rparr>
                else if t = Some Blue then p1\<lparr>x := 700, y := 200\<rparr>
                else p1\<lparr>x := 400, y := 50\<rparr>)
      in p2\<lparr>vx := 0, vy := 0\<rparr>)"

definition resetPosition :: "player \<Rightarrow> player" where
  "resetPosition p =
     (let p1 = (if team p = Some Red then p\<lparr>x := 100, y := 200\<rparr>
                else if team p = Some Blue then p\<lparr>x := 700, y := 200\<rparr>
                else p)
      in p1\<lparr>vx := 0, vy := 0\<rparr>)"

text \<open>\<open>Date.now()\<close> is a parameter wherever the source reads the clock.\<close>

definition updateInput :: "player \<Rightarrow> input \<Rightarrow> int \<Rightarrow> player" where
  "updateInput p inp now = p\<lparr>input := inp, lastSeen := now\<rparr>"

definition isActive :: "player \<Rightarrow> int \<Rightarrow> bool" where
  "isActive p now = (now - lastSeen p < 5000)"








section \<open>GameRoom\<close>

record scoreboard =
  red :: int
  blue :: int

record gameState =
  ball :: body
  score :: scoreboard
  gameTime :: int
  lastUpdate :: int

text \<open>
  \<open>class GameRoom\<close>. \<open>players\<close> is a JavaScript \<open>Map\<close> from id to player object, iterated
  in insertion order: a list of players, keyed by their \<open>pid\<close>. The host reference and the
  interval handle of the game loop are not modelled; \<open>maxPlayers\<close>, \<open>maxTeamSize\<close> are
  set once in the constructor and are constants here.
\<close>

record room =
  code :: string
  players :: "player list"
  isPublic :: bool
  isPlaying :: bool
  gameState :: gameState
  redTeamCount :: int
  blueTeamCount :: int

definition maxPlayers :: nat where "maxPlayers = 10"
definition maxTeamSize :: int where "maxTeamSize = 4"

text \<open>\<open>Map.get\<close> and \<open>Map.set\<close>: a present key keeps its place, a new key goes last.\<close>

definition mapGet :: "player list \<Rightarrow> string \<Rightarrow> player option" where
  "mapGet ps k = find (\<lambda>q. pid q = k) ps"

definition mapSet :: "player list \<Rightarrow> player \<Rightarrow> player list" where
  "mapSet ps p =
     (if \<exists>q \<in> set ps. pid q = pid p
      then map (\<lambda>q. if pid q = pid p then p else q) ps
      else ps @ [p])"

text \<open>
  \<open>autoAssignTeam(player)\<close> writes the room's counters and the player object; the model
  returns both.
\<close>

definition autoAssignTeam :: "room \<Rightarrow> player \<Rightarrow> room \<times> player" where
  "autoAssignTeam r p =
     (if redTeamCount r < maxTeamSize \<and> redTeamCount r \<le> blueTeamCount r
      then (r\<lparr>redTeamCount := redTeamCount r + 1\<rparr>, setTeam p (Some Red))
      else if blueTeamCount r < maxTeamSize
      then (r\<lparr>blueTeamCount := blueTeamCount r + 1\<rparr>, setTeam p (Some Blue))
      else (r, setTeam p None))"

text \<open>
  \<open>addPlayer(player)\<close>: the object stored in the map is the one \<open>autoAssignTeam\<close> then
  writes to, so the map holds the player as assigned.
\<close>

definition addPlayer :: "room \<Rightarrow> player \<Rightarrow> bool \<times> room" where
  "addPlayer r p =
     (if length (players r) \<ge> maxPlayers then (False, r)
      else
        let r1 = r\<lparr>players := mapSet (players r) p\<rparr>;
            (r2, p') = autoAssignTeam r1 p
        in (True, r2\<lparr>players := mapSet (players r2) p'\<rparr>))"

definition removePlayer :: "room \<Rightarrow> string \<Rightarrow> bool \<times> room" where
  "removePlayer r playerId =
     (case mapGet (players r) playerId of
        None \<Rightarrow> (False, r)
      | Some p \<Rightarrow>
          let r1 = (if team p = Some Red then r\<lparr>redTeamCount := redTeamCount r - 1\<rparr>
                    else if team p = Some Blue then r\<lparr>blueTeamCount := blueTeamCount r - 1\<rparr>
                    else r)
          in (True, r1\<lparr>players := filter (\<lambda>q. pid q \<noteq> playerId) (players r1)\<rparr>))"

text \<open>
  \<open>switchPlayerTeam(playerId, newTeam)\<close>. \<open>newTeam\<close> comes from the client's message:
  a string, or \<open>null\<close> (\<open>None\<close>).
\<close>

definition switchPlayerTeam :: "room \<Rightarrow> string \<Rightarrow> string option \<Rightarrow> bool \<times> room" where
  "switchPlayerTeam r playerId newTeam =
     (case mapGet (players r) playerId of
        None \<Rightarrow> (False, r)
      | Some p \<Rightarrow>
          let r1 = (if team p = Some Red then r\<lparr>redTeamCount := redTeamCount r - 1\<rparr>
                    else if team p = Some Blue then r\<lparr>blueTeamCount := blueTeamCount r - 1\<rparr>
                    else r)
          in if newTeam = Some ''red'' \<and> redTeamCount r1 < maxTeamSize
             then (True, r1\<lparr>players := mapSet (players r1) (setTeam p (Some Red)),
                             redTeamCount := redTeamCount r1 + 1\<rparr>)
             else if newTeam = Some ''blue'' \<and> blueTeamCount r1 < maxTeamSize
             then (True, r1\<lparr>players := mapSet (players r1) (setTeam p (Some Blue)),
                             blueTeamCount := blueTeamCount r1 + 1\<rparr>)
             else if newTeam = Some ''spectator'' \<or> newTeam = None
             then (True, r1\<lparr>players := mapSet (players r1) (setTeam p None)\<rparr>)
             else
               (False,
                if team p = Some Red then r1\<lparr>redTeamCount := redTeamCount r1 + 1\<rparr>
                else if team p = Some Blue then r1\<lparr>blueTeamCount := blueTeamCount r1 + 1\<rparr>
                else r1))"

subsection \<open>The tick\<close>

text \<open>
  The first loop of \<open>updateGame\<close>. \<open>isActive\<close> reads the clock again for each player it is
  asked about: \<open>clock i\<close> is the reading for the player at place \<open>i\<close> of the map.
\<close>

fun updatePlayers :: "(nat \<Rightarrow> int) \<Rightarrow> nat \<Rightarrow> real \<Rightarrow> player list \<Rightarrow> player list" where
  "updatePlayers clock i dt [] = []"
| "updatePlayers clock i dt (p # ps) =
     (if team p \<noteq> None \<and> isActive p (clock i) then updatePlayer p (input p) dt else p)
       # updatePlayers clock (Suc i) dt ps"

text \<open>
  The first loop of \<open>checkCollisions\<close>: each player in turn against the ball, which every
  resolved collision moves for the players after it.
\<close>

fun collideBall :: "player list \<Rightarrow> body \<Rightarrow> player list \<times> body" where
  "collideBall [] b = ([], b)"
| "collideBall (p # ps) b =
     (let (p', b') = (if team p \<noteq> None \<and> checkCollision p b 15 10
                      then resolveCollision p b 15 10 1 (5 / 10)
                      else (p, b));
          (ps', b'') = collideBall ps b'
      in (p' # ps', b''))"

text \<open>
  The second loop works on \<open>playerArray\<close>, the teamed players in map order. Its entries
  are the player objects themselves, so it is modelled by the places of the teamed players
  in the list: \<open>collideWith i js\<close> is the inner loop over \<open>j\<close>, \<open>collidePairs\<close> the outer
  loop over \<open>i\<close>.
\<close>

definition teamedIndices :: "player list \<Rightarrow> nat list" where
  "teamedIndices ps = filter (\<lambda>i. team (ps ! i) \<noteq> None) [0..<length ps]"

fun collideWith :: "nat \<Rightarrow> nat list \<Rightarrow> player list \<Rightarrow> player list" where
  "collideWith i [] ps = ps"
| "collideWith i (j # js) ps =
     collideWith i js
       (if checkCollision (ps ! i) (ps ! j) 15 15
        then (let (p1, p2) = resolveCollision (ps ! i) (ps ! j) 15 15 1 1
              in ps[i := p1, j := p2])
        else ps)"

fun collidePairs :: "nat list \<Rightarrow> player list \<Rightarrow> player list" where
  "collidePairs [] ps = ps"
| "collidePairs (i # js) ps = collidePairs js (collideWith i js ps)"

definition checkCollisions :: "room \<Rightarrow> room" where
  "checkCollisions r =
     (let (ps1, b1) = collideBall (players r) (ball (gameState r));
          ps2 = collidePairs (teamedIndices ps1) ps1
      in r\<lparr>players := ps2, gameState := (gameState r)\<lparr>ball := b1\<rparr>\<rparr>)"

text \<open>\<open>handleGoal(team)\<close>, with \<open>team\<close> the non-null result of \<open>checkGoal\<close>.\<close>

definition handleGoal :: "room \<Rightarrow> team \<Rightarrow> room" where
  "handleGoal r t =
     (let sc = score (gameState r);
          sc' = (case t of Red \<Rightarrow> sc\<lparr>red := red sc + 1\<rparr> | Blue \<Rightarrow> sc\<lparr>blue := blue sc + 1\<rparr>);
          b' = resetBall (ball (gameState r))
      in r\<lparr>gameState := (gameState r)\<lparr>score := sc', ball := b'\<rparr>,
            players := map (\<lambda>p. if team p \<noteq> None then resetPosition p else p) (players r)\<rparr>)"

text \<open>
  The phases of \<open>updateGame\<close>, named so that statements can speak about the state between
  them: \<open>motionPhase\<close> is the source up to and including \<open>updateBall\<close>, \<open>collisionPhase\<close>
  adds \<open>checkCollisions\<close>, and \<open>updateGame\<close> is the whole tick. \<open>now\<close> is the clock reading
  at the top of the tick.
\<close>

definition motionPhase :: "room \<Rightarrow> int \<Rightarrow> (nat \<Rightarrow> int) \<Rightarrow> room" where
  "motionPhase r now clock =
     (let deltaTime = now - lastUpdate (gameState r);
          g1 = (gameState r)\<lparr>lastUpdate := now\<rparr>;
          dt = real_of_int deltaTime / (1667 / 100);
          ps = updatePlayers clock 0 dt (players r)
      in r\<lparr>players := ps, gameState := g1\<lparr>ball := updateBall (ball g1) dt\<rparr>\<rparr>)"

definition collisionPhase :: "room \<Rightarrow> int \<Rightarrow> (nat \<Rightarrow> int) \<Rightarrow> room" where
  "collisionPhase r now clock = checkCollisions (motionPhase r now clock)"

definition updateGame :: "room \<Rightarrow> int \<Rightarrow> (nat \<Rightarrow> int) \<Rightarrow> room" where
  "updateGame r now clock =
     (let deltaTime = now - lastUpdate (gameState r);
          r1 = collisionPhase r now clock;
          r2 = (case checkGoal (ball (gameState r1)) of
                  Some goalScored \<Rightarrow> handleGoal r1 goalScored
                | None \<Rightarrow> r1)
      in r2\<lparr>gameState := (gameState r2)\<lparr>gameTime := gameTime (gameState r2) + deltaTime\<rparr>\<rparr>)"

subsection \<open>The snapshot\<close>



section \<open>The statements of the source, one at a time\<close>

text \<open>
  The four \<open>if\<close> statements of \<open>constrainToBounds\<close> and the stages of \<open>updatePlayer\<close> and
  \<open>updateBall\<close>, each as a function of its own. They are proved below to compose to the
  definitions above, and serve to reason about one statement at a time.
\<close>

definition wallLeft :: "'a body_scheme \<Rightarrow> real \<Rightarrow> 'a body_scheme" where
  "wallLeft obj radius =
     (if x obj - radius < 0 then
        (if y obj \<ge> goalTop \<and> y obj \<le> goalBottom then
           (if x obj - radius < - goalDepth
            then obj\<lparr>x := - goalDepth + radius, vx := \<bar>vx obj\<bar> * bounceRestitution\<rparr>
            else obj)
         else obj\<lparr>x := radius, vx := \<bar>vx obj\<bar> * bounceRestitution\<rparr>)
      else obj)"

definition wallRight :: "'a body_scheme \<Rightarrow> real \<Rightarrow> 'a body_scheme" where
  "wallRight obj radius =
     (if x obj + radius > fieldWidth then
        (if y obj \<ge> goalTop \<and> y obj \<le> goalBottom then
           (if x obj + radius > fieldWidth + goalDepth
            then obj\<lparr>x := fieldWidth + goalDepth - radius, vx := - \<bar>vx obj\<bar> * bounceRestitution\<rparr>
            else obj)
         else obj\<lparr>x := fieldWidth - radius, vx := - \<bar>vx obj\<bar> * bounceRestitution\<rparr>)
      else obj)"

definition wallTop :: "'a body_scheme \<Rightarrow> real \<Rightarrow> 'a body_scheme" where
  "wallTop obj radius =
     (if y obj - radius < 0 then obj\<lparr>y := radius, vy := \<bar>vy obj\<bar> * bounceRestitution\<rparr> else obj)"

definition wallBottom :: "'a body_scheme \<Rightarrow> real \<Rightarrow> 'a body_scheme" where
  "wallBottom obj radius =
     (if y obj + radius > fieldHeight
      then obj\<lparr>y := fieldHeight - radius, vy := - \<bar>vy obj\<bar> * bounceRestitution\<rparr> else obj)"

definition applyInput :: "player \<Rightarrow> input \<Rightarrow> player" where
  "applyInput p inp =
     (let p1 = (if up inp then p\<lparr>vy := vy p - acceleration\<rparr> else p);
          p2 = (if down inp then p1\<lparr>vy := vy p1 + acceleration\<rparr> else p1);
          p3 = (if left inp then p2\<lparr>vx := vx p2 - acceleration\<rparr> else p2)
      in (if right inp then p3\<lparr>vx := vx p3 + acceleration\<rparr> else p3))"

definition limitSpeed :: "player \<Rightarrow> player" where
  "limitSpeed p =
     (let speed = sqrt (vx p * vx p + vy p * vy p)
      in if speed > maxSpeed
         then p\<lparr>vx := (vx p / speed) * maxSpeed, vy := (vy p / speed) * maxSpeed\<rparr>
         else p)"

definition advance :: "'a body_scheme \<Rightarrow> real \<Rightarrow> 'a body_scheme" where
  "advance b deltaTime =
     (let b1 = b\<lparr>vx := vx b * friction, vy := vy b * friction\<rparr>
      in b1\<lparr>x := x b1 + vx b1 * deltaTime, y := y b1 + vy b1 * deltaTime\<rparr>)"

section \<open>Notions of the specification\<close>

text \<open>
  \<open>autoAssign\<close> as the specification words it: the team with fewer members, Red on a
  tie, if under the cap of 4; else the other team if under the cap; else Spectator.
\<close>

definition autoAssignSpec :: "int \<Rightarrow> int \<Rightarrow> team option" where
  "autoAssignSpec redCount blueCount =
     (let count = (\<lambda>t. case t of Red \<Rightarrow> redCount | Blue \<Rightarrow> blueCount);
          fewer = (if redCount \<le> blueCount then Red else Blue);
          other = (case fewer of Red \<Rightarrow> Blue | Blue \<Rightarrow> Red)
      in if count fewer < 4 then Some fewer
         else if count other < 4 then Some other
         else None)"

text \<open>The fixed spot of each team, and a player standing on its team's spot at rest.\<close>

definition teamSpot :: "team option \<Rightarrow> real \<times> real" where
  "teamSpot t = (case t of Some Red \<Rightarrow> (100, 200) | Some Blue \<Rightarrow> (700, 200) | None \<Rightarrow> (400, 50))"

definition atSpot :: "player \<Rightarrow> bool" where
  "atSpot p = ((x p, y p) = teamSpot (team p) \<and> vx p = 0 \<and> vy p = 0)"






text \<open>
  Total momentum and total kinetic energy of two bodies of masses \<open>m1\<close> and \<open>m2\<close>.
\<close>

definition momentum :: "real \<Rightarrow> 'a body_scheme \<Rightarrow> real \<Rightarrow> 'b body_scheme \<Rightarrow> real \<times> real" where
  "momentum m1 a m2 b = (m1 * vx a + m2 * vx b, m1 * vy a + m2 * vy b)"

definition kineticEnergy :: "real \<Rightarrow> 'a body_scheme \<Rightarrow> real \<Rightarrow> 'b body_scheme \<Rightarrow> real" where
  "kineticEnergy m1 a m2 b =
     m1 * (vx a * vx a + vy a * vy a) / 2 + m2 * (vx b * vx b + vy b * vy b) / 2"

text \<open>
  The scoreboard after a goal of team \<open>t\<close>, and what a goal does to one player: \<open>q\<close> is
  player \<open>p\<close> after the goal when every field but position and velocity is as before, a
  teamed \<open>p\<close> stands on its team's kickoff position at rest, and a spectator is unchanged.
\<close>

definition scoreAfterGoal :: "team \<Rightarrow> scoreboard \<Rightarrow> scoreboard" where
  "scoreAfterGoal t sc = (case t of Red \<Rightarrow> \<lparr>red = red sc + 1, blue = blue sc\<rparr>
                                   | Blue \<Rightarrow> \<lparr>red = red sc, blue = blue sc + 1\<rparr>)"

definition kickoff :: "player \<Rightarrow> player \<Rightarrow> bool" where
  "kickoff p q =
     (body.more q = body.more p
      \<and> (case team p of
            Some Red \<Rightarrow> x q = 100 \<and> y q = 200 \<and> vx q = 0 \<and> vy q = 0
          | Some Blue \<Rightarrow> x q = 700 \<and> y q = 200 \<and> vx q = 0 \<and> vy q = 0
          | None \<Rightarrow> q = p))"

text \<open>
  The velocity magnitude, as \<open>updatePlayer\<close> computes it, and its square.
\<close>

definition speed :: "'a body_scheme \<Rightarrow> real" where
  "speed b = sqrt (vx b * vx b + vy b * vy b)"







text \<open>
  The players of a room with every \<open>lastSeen\<close> set to \<open>t\<close>: with \<open>t\<close> the current time,
  the same players, all of them active.
\<close>

definition refresh :: "int \<Rightarrow> player list \<Rightarrow> player list" where
  "refresh t ps = map (\<lambda>p. p\<lparr>lastSeen := t\<rparr>) ps"


text \<open>
  The collision pass as the specification words it: the ball against each teamed player,
  then every unordered pair of teamed players. A contact names the bodies by their places
  in the player list; \<open>pairsOf\<close> lists each unordered pair of a list once; \<open>contacts\<close> is
  the list of contacts of a room, which only the teams decide; \<open>resolveContact\<close> resolves
  one contact on the players and the ball, if the two bodies overlap.
\<close>

datatype contact = BallContact nat | PairContact nat nat

fun pairsOf :: "nat list \<Rightarrow> (nat \<times> nat) list" where
  "pairsOf [] = []"
| "pairsOf (i # js) = map (Pair i) js @ pairsOf js"

definition contacts :: "player list \<Rightarrow> contact list" where
  "contacts ps =
     map BallContact (teamedIndices ps)
       @ map (\<lambda>(i, j). PairContact i j) (pairsOf (teamedIndices ps))"

fun resolveContact :: "contact \<Rightarrow> player list \<times> body \<Rightarrow> player list \<times> body" where
  "resolveContact (BallContact i) (ps, b) =
     (if checkCollision (ps ! i) b 15 10
      then (let (p', b') = resolveCollision (ps ! i) b 15 10 1 (5 / 10) in (ps[i := p'], b'))
      else (ps, b))"
| "resolveContact (PairContact i j) (ps, b) =
     (if checkCollision (ps ! i) (ps ! j) 15 15
      then (let (p1, p2) = resolveCollision (ps ! i) (ps ! j) 15 15 1 1 in (ps[i := p1, j := p2], b))
      else (ps, b))"

section \<open>Example states\<close>

text \<open>A room with Red at the cap of four and one Blue player, all on their spots.\<close>

definition fullRedRoom :: room where
  "fullRedRoom =
     \<lparr>code = ''AB12CD'',
      players = [setTeam (newPlayer ''r1'' ''Ann'' 0) (Some Red),
                 setTeam (newPlayer ''r2'' ''Bob'' 0) (Some Red),
                 setTeam (newPlayer ''r3'' ''Cem'' 0) (Some Red),
                 setTeam (newPlayer ''r4'' ''Dia'' 0) (Some Red),
                 setTeam (newPlayer ''b1'' ''Eve'' 0) (Some Blue)],
      isPublic = True, isPlaying = True,
      gameState = \<lparr>ball = \<lparr>x = 400, y = 200, vx = 0, vy = 0\<rparr>,
                    score = \<lparr>red = 0, blue = 0\<rparr>, gameTime = 0, lastUpdate = 0\<rparr>,
      redTeamCount = 4, blueTeamCount = 1\<rparr>"


text \<open>A room in which the ball is about to cross the left line inside the goal span.\<close>

definition goalRoom :: room where
  "goalRoom =
     \<lparr>code = ''AB12CD'',
      players = [(setTeam (newPlayer ''r1'' ''Ann'' 0) (Some Red))\<lparr>x := 300, y := 150\<rparr>,
                 (setTeam (newPlayer ''b1'' ''Bob'' 0) (Some Blue))\<lparr>x := 500, y := 250\<rparr>,
                 setTeam (newPlayer ''s1'' ''Cem'' 0) None],
      isPublic = True, isPlaying = True,
      gameState = \<lparr>ball = \<lparr>x = 3, y = 200, vx = - 6, vy = 0\<rparr>,
                    score = \<lparr>red = 2, blue = 1\<rparr>, gameTime = 1000, lastUpdate = 0\<rparr>,
      redTeamCount = 1, blueTeamCount = 1\<rparr>"

text \<open>A player running into a ball that rolls towards it.\<close>

definition runner :: body where "runner = \<lparr>x = 100, y = 200, vx = 3, vy = 0\<rparr>"
definition rolling :: body where "rolling = \<lparr>x = 120, y = 200, vx = - 1, vy = 0\<rparr>"



text \<open>
  A Red player whose last input is 6 seconds old and a spectator, both at (400, 50), with
  the ball at rest 10 units below them.
\<close>

definition idleRoom :: room where
  "idleRoom =
     \<lparr>code = ''AB12CD'',
      players = [(setTeam (newPlayer ''r1'' ''Ann'' 0) (Some Red))\<lparr>x := 400, y := 50\<rparr>,
                 setTeam (newPlayer ''s1'' ''Bob'' 0) None],
      isPublic = True, isPlaying = True,
      gameState = \<lparr>ball = \<lparr>x = 400, y = 60, vx = 0, vy = 0\<rparr>,
                    score = \<lparr>red = 0, blue = 0\<rparr>, gameTime = 5983, lastUpdate = 5983\<rparr>,
      redTeamCount = 1, blueTeamCount = 0\<rparr>"



section \<open>The player map\<close>

lemma pid_setTeam [simp]: "pid (setTeam p t) = pid p"
  by (simp add: setTeam_def Let_def)

lemma team_setTeam [simp]: "team (setTeam p t) = t"
  by (simp add: setTeam_def Let_def)

lemma mapGet_pid: "mapGet ps k = Some p \<Longrightarrow> pid p = k"
  unfolding mapGet_def by (induction ps) (auto split: if_splits)

lemma mapGet_replace:
  "\<exists>q \<in> set ps. pid q = pid p \<Longrightarrow>
   mapGet (map (\<lambda>q. if pid q = pid p then p else q) ps) (pid p) = Some p"
  unfolding mapGet_def by (induction ps) auto

lemma mapGet_append_new:
  "\<not> (\<exists>q \<in> set ps. pid q = pid p) \<Longrightarrow> mapGet (ps @ [p]) (pid p) = Some p"
  unfolding mapGet_def by (induction ps) auto

lemma mapGet_mapSet: "mapGet (mapSet ps p) (pid p) = Some p"
  unfolding mapSet_def using mapGet_replace mapGet_append_new by (simp del: bex_simps)

section \<open>Goal attribution\<close>

text \<open>
  Claim C4. \<open>checkGoal\<close> returns Blue exactly when the ball is at \<open>x < 0\<close> with \<open>y\<close> in
  the goal span \<open>[160, 240]\<close>, Red exactly when it is at \<open>x > 800\<close> with \<open>y\<close> in the span,
  and no goal in every other state of the ball: a breach of the left side scores for Blue.
\<close>

theorem checkGoal_attribution:
  "(checkGoal b = Some Blue) = (x b < 0 \<and> 160 \<le> y b \<and> y b \<le> 240)
   \<and> (checkGoal b = Some Red) = (x b > 800 \<and> 160 \<le> y b \<and> y b \<le> 240)
   \<and> (checkGoal b = None) = (\<not> (x b < 0 \<and> 160 \<le> y b \<and> y b \<le> 240)
                               \<and> \<not> (x b > 800 \<and> 160 \<le> y b \<and> y b \<le> 240))"
  by (auto simp: checkGoal_def goalTop_def goalBottom_def fieldWidth_def fieldHeight_def goalHeight_def)

section \<open>Team assignment\<close>

lemma autoAssignTeam_team:
  "team (snd (autoAssignTeam r p)) = autoAssignSpec (redTeamCount r) (blueTeamCount r)"
  by (auto simp: autoAssignTeam_def autoAssignSpec_def maxTeamSize_def Let_def)

lemma autoAssignTeam_pid: "pid (snd (autoAssignTeam r p)) = pid p"
  by (simp add: autoAssignTeam_def)

lemma addPlayer_stored:
  "length (players r) < maxPlayers \<Longrightarrow>
   mapGet (players (snd (addPlayer r p))) (pid p) = Some (snd (autoAssignTeam (r\<lparr>players := mapSet (players r) p\<rparr>) p))"
  using mapGet_mapSet[of _ "snd (autoAssignTeam (r\<lparr>players := mapSet (players r) p\<rparr>) p)"]
  by (simp add: addPlayer_def Let_def split_beta autoAssignTeam_pid)

lemma autoAssignTeam_counts:
  "redTeamCount (fst (autoAssignTeam r p)) =
     redTeamCount r + (if autoAssignSpec (redTeamCount r) (blueTeamCount r) = Some Red then 1 else 0)
   \<and> blueTeamCount (fst (autoAssignTeam r p)) =
     blueTeamCount r + (if autoAssignSpec (redTeamCount r) (blueTeamCount r) = Some Blue then 1 else 0)"
  by (auto simp: autoAssignTeam_def autoAssignSpec_def maxTeamSize_def Let_def)

text \<open>
  Claim C7. \<open>autoAssignTeam\<close> gives the joining player the team that the specification's
  rule names (the team with fewer members, Red on a tie, if under the cap of 4; else the
  other team if under the cap; else Spectator) and counts the player in; the player stored
  by \<open>addPlayer\<close> carries that team. With four Red and one Blue the joiner goes to Blue.
\<close>

theorem autoAssign_fewer_team:
  "team (snd (autoAssignTeam r p)) = autoAssignSpec (redTeamCount r) (blueTeamCount r)
   \<and> redTeamCount (fst (autoAssignTeam r p)) =
       redTeamCount r + (if autoAssignSpec (redTeamCount r) (blueTeamCount r) = Some Red then 1 else 0)
   \<and> blueTeamCount (fst (autoAssignTeam r p)) =
       blueTeamCount r + (if autoAssignSpec (redTeamCount r) (blueTeamCount r) = Some Blue then 1 else 0)
   \<and> (length (players r) < maxPlayers \<longrightarrow>
        map_option team (mapGet (players (snd (addPlayer r p))) (pid p))
          = Some (autoAssignSpec (redTeamCount r) (blueTeamCount r)))
   \<and> (redTeamCount r = 4 \<and> blueTeamCount r = 1 \<longrightarrow> team (snd (autoAssignTeam r p)) = Some Blue)"
proof -
  have spec: "team (snd (autoAssignTeam r p)) = autoAssignSpec (redTeamCount r) (blueTeamCount r)"
    by (rule autoAssignTeam_team)
  have join: "map_option team (mapGet (players (snd (addPlayer r p))) (pid p))
          = Some (autoAssignSpec (redTeamCount r) (blueTeamCount r))"
    if "length (players r) < maxPlayers"
    using addPlayer_stored[OF that] autoAssignTeam_team[of "r\<lparr>players := mapSet (players r) p\<rparr>" p]
    by simp
  have scen: "team (snd (autoAssignTeam r p)) = Some Blue"
    if "redTeamCount r = 4 \<and> blueTeamCount r = 1"
    using that by (simp add: autoAssignTeam_def maxTeamSize_def)
  show ?thesis using spec join scen autoAssignTeam_counts[of r p] by blast
qed

theorem autoAssign_fewer_team_witness:
  "length (players fullRedRoom) < maxPlayers
   \<and> redTeamCount fullRedRoom = 4 \<and> blueTeamCount fullRedRoom = 1
   \<and> team (snd (autoAssignTeam fullRedRoom (newPlayer ''n1'' ''Flo'' 0))) = Some Blue
   \<and> map_option team
        (mapGet (players (snd (addPlayer fullRedRoom (newPlayer ''n1'' ''Flo'' 0)))) ''n1'')
       = Some (Some Blue)"
proof -
  have a: "length (players fullRedRoom) < maxPlayers"
    by (simp add: fullRedRoom_def maxPlayers_def)
  have b: "redTeamCount fullRedRoom = 4 \<and> blueTeamCount fullRedRoom = 1"
    by (simp add: fullRedRoom_def)
  have n: "pid (newPlayer ''n1'' ''Flo'' 0) = ''n1''" by (simp add: newPlayer_def)
  have s: "autoAssignSpec 4 1 = Some Blue" by (simp add: autoAssignSpec_def)
  show ?thesis
    using a b n s autoAssign_fewer_team[of fullRedRoom "newPlayer ''n1'' ''Flo'' 0"] by simp
qed

lemma atSpot_setTeam: "atSpot (setTeam p t)"
  by (cases t rule: option.exhaust; cases "the t")
     (auto simp: atSpot_def setTeam_def teamSpot_def Let_def)

lemma switchPlayerTeam_success:
  assumes "fst (switchPlayerTeam r k nt)"
  shows "\<exists>p t. mapGet (players r) k = Some p
           \<and> mapGet (players (snd (switchPlayerTeam r k nt))) k = Some (setTeam p t)
           \<and> (nt = Some ''red'' \<and> t = Some Red \<or> nt = Some ''blue'' \<and> t = Some Blue
                \<or> (nt = Some ''spectator'' \<or> nt = None) \<and> t = None)"
proof (cases "mapGet (players r) k")
  case None
  with assms show ?thesis by (simp add: switchPlayerTeam_def)
next
  case (Some p)
  then have k: "pid p = k" by (rule mapGet_pid)
  have g: "mapGet (mapSet (players r) (setTeam p t)) k = Some (setTeam p t)" for t
    using mapGet_mapSet[of "players r" "setTeam p t"] k by simp
  show ?thesis using assms Some g
    by (auto simp: switchPlayerTeam_def Let_def split: if_splits)
qed

lemma switchPlayerTeam_spectator:
  assumes "mapGet (players r) k = Some p" and "nt = Some ''spectator'' \<or> nt = None"
  shows "fst (switchPlayerTeam r k nt)"
  using assms by (auto simp: switchPlayerTeam_def Let_def)

lemma atSpot_autoAssignTeam: "atSpot (snd (autoAssignTeam r p))"
  by (simp add: autoAssignTeam_def atSpot_setTeam)

text \<open>
  Claim C10. \<open>setTeam\<close> puts the player on the fixed spot of the new team (Red (100,200),
  Blue (700,200), Spectator (400,50)) with zero velocity, whatever the player's position and
  velocity were; so the player stored by a successful \<open>addPlayer\<close> and the player after a
  successful \<open>switchPlayerTeam\<close> stand on their team's spot at rest, and a switch to
  Spectator (which always succeeds for a player of the room) leaves the player at (400,50).
\<close>

theorem setTeam_places_player:
  "atSpot (setTeam p t) \<and> team (setTeam p t) = t
   \<and> (fst (addPlayer r p) \<longrightarrow>
        map_option atSpot (mapGet (players (snd (addPlayer r p))) (pid p)) = Some True)
   \<and> (fst (switchPlayerTeam r k nt) \<longrightarrow>
        map_option atSpot (mapGet (players (snd (switchPlayerTeam r k nt))) k) = Some True)
   \<and> (mapGet (players r) k \<noteq> None \<and> (nt = Some ''spectator'' \<or> nt = None) \<longrightarrow>
        fst (switchPlayerTeam r k nt)
        \<and> map_option (\<lambda>q. (team q, x q, y q, vx q, vy q))
              (mapGet (players (snd (switchPlayerTeam r k nt))) k) = Some (None, 400, 50, 0, 0))"
proof -
  have join: "map_option atSpot (mapGet (players (snd (addPlayer r p))) (pid p)) = Some True"
    if "fst (addPlayer r p)"
  proof -
    from that have "length (players r) < maxPlayers"
      by (simp add: addPlayer_def split: if_splits)
    from addPlayer_stored[OF this] show ?thesis
      by (simp add: atSpot_autoAssignTeam)
  qed
  have switch: "map_option atSpot (mapGet (players (snd (switchPlayerTeam r k nt))) k) = Some True"
    if "fst (switchPlayerTeam r k nt)"
    using switchPlayerTeam_success[OF that] atSpot_setTeam by auto
  have spect: "fst (switchPlayerTeam r k nt)
        \<and> map_option (\<lambda>q. (team q, x q, y q, vx q, vy q))
              (mapGet (players (snd (switchPlayerTeam r k nt))) k) = Some (None, 400, 50, 0, 0)"
    if h: "mapGet (players r) k \<noteq> None \<and> (nt = Some ''spectator'' \<or> nt = None)"
  proof -
    from h obtain p0 where p0: "mapGet (players r) k = Some p0" by auto
    have ok: "fst (switchPlayerTeam r k nt)"
      using switchPlayerTeam_spectator[OF p0] h by simp
    from switchPlayerTeam_success[OF ok] h obtain q where
      "mapGet (players (snd (switchPlayerTeam r k nt))) k = Some (setTeam q None)" by auto
    then show ?thesis using ok by (simp add: setTeam_def Let_def)
  qed
  show ?thesis using atSpot_setTeam[of p t] join switch spect by simp
qed

theorem setTeam_places_player_witness:
  "fst (addPlayer fullRedRoom (newPlayer ''n1'' ''Flo'' 0))
   \<and> map_option atSpot
        (mapGet (players (snd (addPlayer fullRedRoom (newPlayer ''n1'' ''Flo'' 0)))) ''n1'') = Some True
   \<and> fst (switchPlayerTeam fullRedRoom ''r1'' (Some ''blue''))
   \<and> map_option atSpot
        (mapGet (players (snd (switchPlayerTeam fullRedRoom ''r1'' (Some ''blue'')))) ''r1'') = Some True
   \<and> mapGet (players fullRedRoom) ''r2'' \<noteq> None
   \<and> fst (switchPlayerTeam fullRedRoom ''r2'' None)
   \<and> map_option (\<lambda>q. (team q, x q, y q, vx q, vy q))
        (mapGet (players (snd (switchPlayerTeam fullRedRoom ''r2'' None))) ''r2'')
       = Some (None, 400, 50, 0, 0)"
proof -
  have a: "fst (addPlayer fullRedRoom (newPlayer ''n1'' ''Flo'' 0))"
    by (simp add: addPlayer_def fullRedRoom_def maxPlayers_def Let_def split_beta)
  have b: "fst (switchPlayerTeam fullRedRoom ''r1'' (Some ''blue''))"
    by (simp add: switchPlayerTeam_def fullRedRoom_def mapGet_def newPlayer_def setTeam_def
        maxTeamSize_def Let_def)
  have c: "mapGet (players fullRedRoom) ''r2'' \<noteq> None"
    by (simp add: fullRedRoom_def mapGet_def newPlayer_def setTeam_def Let_def)
  have n: "pid (newPlayer ''n1'' ''Flo'' 0) = ''n1''" by (simp add: newPlayer_def)
  show ?thesis
    using a b c n
      setTeam_places_player[of "newPlayer ''n1'' ''Flo'' 0" None fullRedRoom "''r1''" "Some ''blue''"]
      setTeam_places_player[of "newPlayer ''n1'' ''Flo'' 0" None fullRedRoom "''r2''" None]
    by simp
qed

text \<open>
  Claim C5, as amended. For a player of the room, a \<open>switchPlayerTeam\<close> call that targets a
  full team the player is not on returns failure and leaves the whole room as it was; a
  call that targets any full team leaves both team counters and the player's team at their
  values before the call; a call that targets Spectator succeeds.
\<close>

theorem switchTeam_full_team:
  "mapGet (players r) k = Some p \<longrightarrow>
     (nt = Some ''red'' \<and> maxTeamSize \<le> redTeamCount r \<and> team p \<noteq> Some Red
        \<longrightarrow> switchPlayerTeam r k nt = (False, r))
   \<and> (nt = Some ''blue'' \<and> maxTeamSize \<le> blueTeamCount r \<and> team p \<noteq> Some Blue
        \<longrightarrow> switchPlayerTeam r k nt = (False, r))
   \<and> (nt = Some ''red'' \<and> maxTeamSize \<le> redTeamCount r
        \<or> nt = Some ''blue'' \<and> maxTeamSize \<le> blueTeamCount r
        \<longrightarrow> redTeamCount (snd (switchPlayerTeam r k nt)) = redTeamCount r
          \<and> blueTeamCount (snd (switchPlayerTeam r k nt)) = blueTeamCount r
          \<and> map_option team (mapGet (players (snd (switchPlayerTeam r k nt))) k) = Some (team p))
   \<and> (nt = Some ''spectator'' \<or> nt = None \<longrightarrow> fst (switchPlayerTeam r k nt))"
proof (intro impI conjI)
  assume p: "mapGet (players r) k = Some p"
  then have k: "pid p = k" by (rule mapGet_pid)
  have g: "mapGet (mapSet (players r) (setTeam p t)) k = Some (setTeam p t)" for t
    using mapGet_mapSet[of "players r" "setTeam p t"] k by simp
  { assume "nt = Some ''red'' \<and> maxTeamSize \<le> redTeamCount r \<and> team p \<noteq> Some Red"
    then show "switchPlayerTeam r k nt = (False, r)"
      using p by (simp add: switchPlayerTeam_def Let_def) }
  { assume "nt = Some ''blue'' \<and> maxTeamSize \<le> blueTeamCount r \<and> team p \<noteq> Some Blue"
    then show "switchPlayerTeam r k nt = (False, r)"
      using p by (simp add: switchPlayerTeam_def Let_def) }
  { assume h: "nt = Some ''red'' \<and> maxTeamSize \<le> redTeamCount r
        \<or> nt = Some ''blue'' \<and> maxTeamSize \<le> blueTeamCount r"
    then show "redTeamCount (snd (switchPlayerTeam r k nt)) = redTeamCount r"
      using p by (auto simp: switchPlayerTeam_def Let_def)
    from h show "blueTeamCount (snd (switchPlayerTeam r k nt)) = blueTeamCount r"
      using p by (auto simp: switchPlayerTeam_def Let_def)
    from h show "map_option team (mapGet (players (snd (switchPlayerTeam r k nt))) k) = Some (team p)"
      using p g by (auto simp: switchPlayerTeam_def Let_def) }
  { assume "nt = Some ''spectator'' \<or> nt = None"
    then show "fst (switchPlayerTeam r k nt)"
      using p by (rule switchPlayerTeam_spectator[rotated]) }
qed

theorem switchTeam_full_team_witness:
  "mapGet (players fullRedRoom) ''b1'' = Some (setTeam (newPlayer ''b1'' ''Eve'' 0) (Some Blue))
   \<and> maxTeamSize \<le> redTeamCount fullRedRoom
   \<and> switchPlayerTeam fullRedRoom ''b1'' (Some ''red'') = (False, fullRedRoom)
   \<and> redTeamCount (snd (switchPlayerTeam fullRedRoom ''b1'' (Some ''red''))) = 4
   \<and> blueTeamCount (snd (switchPlayerTeam fullRedRoom ''b1'' (Some ''red''))) = 1
   \<and> map_option team (mapGet (players (snd (switchPlayerTeam fullRedRoom ''b1'' (Some ''red'')))) ''b1'')
       = Some (Some Blue)"
proof -
  have a: "mapGet (players fullRedRoom) ''b1'' = Some (setTeam (newPlayer ''b1'' ''Eve'' 0) (Some Blue))"
    by (simp add: fullRedRoom_def mapGet_def newPlayer_def setTeam_def Let_def)
  have b: "maxTeamSize \<le> redTeamCount fullRedRoom"
    by (simp add: fullRedRoom_def maxTeamSize_def)
  have c: "redTeamCount fullRedRoom = 4 \<and> blueTeamCount fullRedRoom = 1"
    by (simp add: fullRedRoom_def)
  show ?thesis
    using a b c
      switchTeam_full_team[of fullRedRoom "''b1''"
        "setTeam (newPlayer ''b1'' ''Eve'' 0) (Some Blue)" "Some ''red''"]
    by simp
qed

text \<open>
  The claim as first stated also promises failure when the player already is a member of the
  full team. The counter is decremented before the capacity test, so that call succeeds.
\<close>

theorem switchTeam_own_full_team_succeeds:
  "mapGet (players fullRedRoom) ''r1'' \<noteq> None
   \<and> maxTeamSize \<le> redTeamCount fullRedRoom
   \<and> fst (switchPlayerTeam fullRedRoom ''r1'' (Some ''red''))"
  by (simp add: switchPlayerTeam_def fullRedRoom_def mapGet_def newPlayer_def setTeam_def
        maxTeamSize_def Let_def)

section \<open>The snapshot\<close>


























section \<open>Statement-wise form of the physics\<close>

lemma constrainToBounds_walls:
  "constrainToBounds obj radius = wallBottom (wallTop (wallRight (wallLeft obj radius) radius) radius) radius"
  unfolding constrainToBounds_def wallLeft_def wallRight_def wallTop_def wallBottom_def Let_def
  by (rule refl)

lemma wall_more [simp]:
  "body.more (wallLeft obj r) = body.more obj"
  "body.more (wallRight obj r) = body.more obj"
  "body.more (wallTop obj r) = body.more obj"
  "body.more (wallBottom obj r) = body.more obj"
  by (simp_all add: wallLeft_def wallRight_def wallTop_def wallBottom_def)

lemma constrainToBounds_more [simp]: "body.more (constrainToBounds obj radius) = body.more obj"
  by (simp add: constrainToBounds_walls)

lemma updatePlayer_stages:
  "updatePlayer p inp dt = constrainToBounds (advance (limitSpeed (applyInput p inp)) dt) playerRadius"
  unfolding updatePlayer_def applyInput_def limitSpeed_def advance_def Let_def
  by (rule refl)

lemma updateBall_stages: "updateBall b dt = constrainToBounds (advance b dt) ballRadius"
  unfolding updateBall_def advance_def Let_def by (rule refl)

lemma stage_more [simp]:
  "body.more (applyInput p inp) = body.more p"
  "body.more (limitSpeed p) = body.more p"
  "body.more (advance b dt) = body.more b"
  by (simp_all add: applyInput_def limitSpeed_def advance_def Let_def)

lemma updatePlayer_more [simp]: "body.more (updatePlayer p inp dt) = body.more p"
  by (simp add: updatePlayer_stages)

lemma resolveCollision_more [simp]:
  "body.more (fst (resolveCollision a b ra rb m1 m2)) = body.more a"
  "body.more (snd (resolveCollision a b ra rb m1 m2)) = body.more b"
  by (simp_all add: resolveCollision_def Let_def)

section \<open>Collision resolution: momentum and energy\<close>

lemma normalize_unit:
  "x (normalize v) * x (normalize v) + y (normalize v) * y (normalize v)
     = (if sqrt (x v * x v + y v * y v) = 0 then 0 else 1)"
proof (cases "sqrt (x v * x v + y v * y v) = 0")
  case True
  then show ?thesis by (simp add: normalize_def)
next
  case False
  define m where "m = sqrt (x v * x v + y v * y v)"
  have m2: "m * m = x v * x v + y v * y v"
    unfolding m_def by (simp add: real_sqrt_mult_self)
  have "x v / m * (x v / m) + y v / m * (y v / m) = (x v * x v + y v * y v) / (m * m)"
    by (simp add: add_divide_distrib)
  also have "\<dots> = 1" using False m2 m_def by simp
  finally show ?thesis using False by (simp add: normalize_def m_def Let_def)
qed

lemma normalize_le_one:
  "x (normalize v) * x (normalize v) + y (normalize v) * y (normalize v) \<le> 1"
  by (simp add: normalize_unit)

lemma impulse_momentum:
  fixes m1 m2 j n u1 u2 :: real
  assumes "0 < m1" "0 < m2"
  shows "m1 * (u1 - j * n / m1) + m2 * (u2 + j * n / m2) = m1 * u1 + m2 * u2"
  using assms by (simp add: field_simps)

lemma impulse_energy:
  fixes m1 m2 nx ny ax ay bx by' :: real
  assumes m: "0 < m1" "0 < m2" and n: "nx * nx + ny * ny \<le> 1"
  defines "van \<equiv> (bx - ax) * nx + (by' - ay) * ny"
  defines "j \<equiv> - (1 + bounceRestitution) * van / (1 / m1 + 1 / m2)"
  shows "m1 * ((ax - j * nx / m1) * (ax - j * nx / m1) + (ay - j * ny / m1) * (ay - j * ny / m1)) / 2
         + m2 * ((bx + j * nx / m2) * (bx + j * nx / m2) + (by' + j * ny / m2) * (by' + j * ny / m2)) / 2
         \<le> m1 * (ax * ax + ay * ay) / 2 + m2 * (bx * bx + by' * by') / 2"
proof -
  define M where "M = 1 / m1 + 1 / m2"
  define s where "s = nx * nx + ny * ny"
  have M: "0 < M" using m by (simp add: M_def add_pos_pos)
  have jM: "j * M = - (9 / 5) * van"
    using M by (simp add: j_def M_def[symmetric] bounceRestitution_def)
  have diff: "m1 * ((ax - j * nx / m1) * (ax - j * nx / m1) + (ay - j * ny / m1) * (ay - j * ny / m1)) / 2
         + m2 * ((bx + j * nx / m2) * (bx + j * nx / m2) + (by' + j * ny / m2) * (by' + j * ny / m2)) / 2
         - (m1 * (ax * ax + ay * ay) / 2 + m2 * (bx * bx + by' * by') / 2)
         = j * van + j * (j * M) * s / 2"
    using m unfolding van_def M_def s_def by (simp add: field_simps)
  have "j * van + j * (j * M) * s / 2 = (j * van) * (1 - 9 * s / 10)"
    unfolding jM by (simp add: algebra_simps)
  moreover have "j * van \<le> 0"
  proof -
    have "j * van = (j * M) * van / M" using M by simp
    also have "\<dots> = - (9 / 5) * (van * van) / M" unfolding jM by simp
    finally have "j * van = - (9 / 5) * (van * van) / M" .
    also have "\<dots> \<le> 0" using M by (simp add: divide_nonpos_pos)
    finally show ?thesis .
  qed
  moreover have "0 \<le> 1 - 9 * s / 10" using n by (simp add: s_def)
  ultimately have "j * van + j * (j * M) * s / 2 \<le> 0"
    by (simp add: mult_nonpos_nonneg)
  with diff show ?thesis by linarith
qed

lemma resolveCollision_velocities:
  fixes a :: "'a body_scheme" and b :: "'b body_scheme" and m1 m2 ra rb :: real
  defines "n \<equiv> normalize \<lparr>x = x b - x a, y = y b - y a\<rparr>"
  defines "van \<equiv> (vx b - vx a) * x n + (vy b - vy a) * y n"
  defines "j \<equiv> - (1 + bounceRestitution) * van / (1 / m1 + 1 / m2)"
  defines "R \<equiv> resolveCollision a b ra rb m1 m2"
  shows "(vx (fst R) = vx a \<and> vy (fst R) = vy a \<and> vx (snd R) = vx b \<and> vy (snd R) = vy b)
       \<or> (vx (fst R) = vx a - j * x n / m1 \<and> vy (fst R) = vy a - j * y n / m1
          \<and> vx (snd R) = vx b + j * x n / m2 \<and> vy (snd R) = vy b + j * y n / m2)"
  unfolding R_def j_def van_def n_def
  by (simp add: resolveCollision_def Let_def dotProduct_def)

lemma resolveCollision_one_order:
  fixes a :: "'a body_scheme" and b :: "'b body_scheme" and m1 m2 ra rb :: real
  assumes m: "0 < m1" "0 < m2"
  defines "R \<equiv> resolveCollision a b ra rb m1 m2"
  shows "momentum m1 (fst R) m2 (snd R) = momentum m1 a m2 b
         \<and> kineticEnergy m1 (fst R) m2 (snd R) \<le> kineticEnergy m1 a m2 b"
proof -
  define n where "n = normalize \<lparr>x = x b - x a, y = y b - y a\<rparr>"
  define van where "van = (vx b - vx a) * x n + (vy b - vy a) * y n"
  define j where "j = - (1 + bounceRestitution) * van / (1 / m1 + 1 / m2)"
  have n1: "x n * x n + y n * y n \<le> 1"
    unfolding n_def by (rule normalize_le_one)
  from resolveCollision_velocities[of a b ra rb m1 m2, folded R_def n_def, folded van_def, folded j_def]
  consider
    (same) "vx (fst R) = vx a" "vy (fst R) = vy a" "vx (snd R) = vx b" "vy (snd R) = vy b"
  | (impulse) "vx (fst R) = vx a - j * x n / m1" "vy (fst R) = vy a - j * y n / m1"
      "vx (snd R) = vx b + j * x n / m2" "vy (snd R) = vy b + j * y n / m2"
    by blast
  then show ?thesis
  proof cases
    case same
    then show ?thesis by (simp add: momentum_def kineticEnergy_def)
  next
    case impulse
    have mom: "momentum m1 (fst R) m2 (snd R) = momentum m1 a m2 b"
      unfolding momentum_def impulse using m by (simp add: impulse_momentum)
    have ke: "kineticEnergy m1 (fst R) m2 (snd R) \<le> kineticEnergy m1 a m2 b"
      unfolding kineticEnergy_def impulse j_def van_def
      by (rule impulse_energy[OF m n1])
    show ?thesis using mom ke by simp
  qed
qed

text \<open>
  Claim C6, as amended. For bodies of positive masses, one \<open>resolveCollision\<close> call, in
  exact arithmetic, leaves the total momentum \<open>massA * vA + massB * vB\<close> unchanged and does
  not increase the total kinetic energy, and this holds for the call with the two bodies in
  either order. The rounding of the machine's arithmetic is left out of this statement: on
  doubles the two quantities are kept up to rounding only.
\<close>

theorem resolveCollision_conserves:
  fixes a :: "'a body_scheme" and b :: "'b body_scheme"
  assumes "0 < massA" and "0 < massB"
  shows "(case resolveCollision a b ra rb massA massB of (a', b') \<Rightarrow>
            momentum massA a' massB b' = momentum massA a massB b
            \<and> kineticEnergy massA a' massB b' \<le> kineticEnergy massA a massB b)
       \<and> (case resolveCollision b a rb ra massB massA of (b', a') \<Rightarrow>
            momentum massB b' massA a' = momentum massB b massA a
            \<and> kineticEnergy massB b' massA a' \<le> kineticEnergy massB b massA a)"
  using resolveCollision_one_order[OF assms, of a b ra rb]
        resolveCollision_one_order[OF assms(2) assms(1), of b a rb ra]
  by (simp add: split_beta)

theorem resolveCollision_conserves_witness:
  "vx (fst (resolveCollision runner rolling 15 10 1 (1 / 2))) = 6 / 10
   \<and> vx (snd (resolveCollision runner rolling 15 10 1 (1 / 2))) = 38 / 10
   \<and> (case resolveCollision runner rolling 15 10 1 (1 / 2) of (a', b') \<Rightarrow>
         momentum 1 a' (1 / 2) b' = (5 / 2, 0) \<and> kineticEnergy 1 a' (1 / 2) b' \<le> 19 / 4)
   \<and> (case resolveCollision rolling runner 10 15 (1 / 2) 1 of (b', a') \<Rightarrow>
         momentum (1 / 2) b' 1 a' = (5 / 2, 0) \<and> kineticEnergy (1 / 2) b' 1 a' \<le> 19 / 4)"
proof -
  have v: "vx (fst (resolveCollision runner rolling 15 10 1 (1 / 2))) = 6 / 10
   \<and> vx (snd (resolveCollision runner rolling 15 10 1 (1 / 2))) = 38 / 10"
    by (simp add: runner_def rolling_def resolveCollision_def distance_def normalize_def
          dotProduct_def bounceRestitution_def Let_def)
  have m: "(0::real) < 1" "(0::real) < 1 / 2" by simp_all
  have before:
    "momentum 1 runner (1 / 2) rolling = (5 / 2, 0)"
    "kineticEnergy 1 runner (1 / 2) rolling = 19 / 4"
    "momentum (1 / 2) rolling 1 runner = (5 / 2, 0)"
    "kineticEnergy (1 / 2) rolling 1 runner = 19 / 4"
    by (simp_all add: runner_def rolling_def momentum_def kineticEnergy_def)
  from resolveCollision_conserves[OF m, of runner rolling 15 10]
  show ?thesis unfolding before using v by blast
qed

text \<open>
  The claim as first stated, for every pair of masses, fails: the function takes any two
  numbers, and with a negative second mass the impulse adds energy. With masses 1 and -1/2
  the runner leaves at 10.2 and the ball at 13.4; momentum is kept at 3.5 and the kinetic
  energy rises from 4.25 to 7.13.
\<close>

theorem negative_mass_gains_energy:
  "vx (fst (resolveCollision runner rolling 15 10 1 (- 1 / 2))) = 51 / 5
   \<and> vx (snd (resolveCollision runner rolling 15 10 1 (- 1 / 2))) = 67 / 5
   \<and> kineticEnergy 1 runner (- 1 / 2) rolling = 17 / 4
   \<and> kineticEnergy 1 (fst (resolveCollision runner rolling 15 10 1 (- 1 / 2)))
         (- 1 / 2) (snd (resolveCollision runner rolling 15 10 1 (- 1 / 2))) = 713 / 100
   \<and> kineticEnergy 1 runner (- 1 / 2) rolling
       < kineticEnergy 1 (fst (resolveCollision runner rolling 15 10 1 (- 1 / 2)))
           (- 1 / 2) (snd (resolveCollision runner rolling 15 10 1 (- 1 / 2)))"
  by (simp add: runner_def rolling_def resolveCollision_def distance_def normalize_def
        dotProduct_def bounceRestitution_def kineticEnergy_def Let_def)

section \<open>What the loops of a tick leave alone\<close>

lemma more_fields:
  fixes p q :: player
  assumes "body.more q = body.more p"
  shows "pid q = pid p \<and> team q = team p \<and> nickname q = nickname p \<and> input q = input p
        \<and> lastSeen q = lastSeen p"
  using assms by (cases p, cases q, simp)

lemma length_updatePlayers [simp]: "length (updatePlayers clock k dt ps) = length ps"
  by (induction ps arbitrary: k) simp_all

lemma updatePlayers_nth:
  "i < length ps \<Longrightarrow>
   updatePlayers clock k dt ps ! i =
     (if team (ps ! i) \<noteq> None \<and> isActive (ps ! i) (clock (k + i))
      then updatePlayer (ps ! i) (input (ps ! i)) dt else ps ! i)"
proof (induction ps arbitrary: k i)
  case Nil
  then show ?case by simp
next
  case (Cons p ps)
  show ?case
  proof (cases i)
    case 0
    then show ?thesis by simp
  next
    case (Suc i')
    with Cons.prems have "i' < length ps" by simp
    from Cons.IH[OF this, of "Suc k"] Suc show ?thesis by simp
  qed
qed

lemma length_collideBall [simp]: "length (fst (collideBall ps b)) = length ps"
  by (induction ps arbitrary: b) (simp_all add: split_beta Let_def)

lemma collideBall_more:
  "i < length ps \<Longrightarrow> body.more (fst (collideBall ps b) ! i) = body.more (ps ! i)"
proof (induction ps arbitrary: b i)
  case Nil
  then show ?case by simp
next
  case (Cons p ps)
  show ?case
  proof (cases i)
    case 0
    then show ?thesis by (simp add: split_beta Let_def)
  next
    case (Suc i')
    with Cons.prems have "i' < length ps" by simp
    from Cons.IH[OF this] Suc show ?thesis by (simp add: split_beta Let_def)
  qed
qed

lemma collideBall_teamless:
  "i < length ps \<Longrightarrow> team (ps ! i) = None \<Longrightarrow> fst (collideBall ps b) ! i = ps ! i"
proof (induction ps arbitrary: b i)
  case Nil
  then show ?case by simp
next
  case (Cons p ps)
  show ?case
  proof (cases i)
    case 0
    with Cons.prems show ?thesis by (simp add: split_beta Let_def)
  next
    case (Suc i')
    with Cons.prems have "i' < length ps" "team (ps ! i') = None" by simp_all
    from Cons.IH[OF this] Suc show ?thesis by (simp add: split_beta Let_def)
  qed
qed

lemma length_collideWith [simp]: "length (collideWith i js ps) = length ps"
  by (induction js arbitrary: ps) (simp_all add: split_beta)

lemma length_collidePairs [simp]: "length (collidePairs js ps) = length ps"
  by (induction js arbitrary: ps) simp_all

lemma collideWith_more:
  "k < length ps \<Longrightarrow> body.more (collideWith i js ps ! k) = body.more (ps ! k)"
proof (induction js arbitrary: ps)
  case Nil
  then show ?case by simp
next
  case (Cons j js)
  let ?ps' = "(if checkCollision (ps ! i) (ps ! j) 15 15
        then (let (p1, p2) = resolveCollision (ps ! i) (ps ! j) 15 15 1 1
              in ps[i := p1, j := p2])
        else ps)"
  have len: "length ?ps' = length ps" by (simp add: split_beta)
  have upd: "body.more (ps[i := p1, j := p2] ! k) = body.more (ps ! k)"
    if "body.more p1 = body.more (ps ! i)" "body.more p2 = body.more (ps ! j)" for p1 p2
    using that Cons.prems by (cases "k = j"; cases "k = i") simp_all
  have step: "body.more (?ps' ! k) = body.more (ps ! k)"
    by (simp add: split_beta upd)
  from Cons.IH[of ?ps'] Cons.prems len have "body.more (collideWith i js ?ps' ! k) = body.more (?ps' ! k)"
    by simp
  with step show ?case by simp
qed

lemma collidePairs_more:
  "k < length ps \<Longrightarrow> body.more (collidePairs js ps ! k) = body.more (ps ! k)"
proof (induction js arbitrary: ps)
  case Nil
  then show ?case by simp
next
  case (Cons i js)
  from Cons.IH[of "collideWith i js ps"] Cons.prems collideWith_more[of k ps i js]
  show ?case by simp
qed

lemma collideWith_untouched:
  "k \<noteq> i \<Longrightarrow> k \<notin> set js \<Longrightarrow> collideWith i js ps ! k = ps ! k"
  by (induction js arbitrary: ps) (auto simp: split_beta)

lemma collidePairs_untouched:
  "k \<notin> set js \<Longrightarrow> collidePairs js ps ! k = ps ! k"
  by (induction js arbitrary: ps) (auto simp: collideWith_untouched)

lemma set_teamedIndices: "set (teamedIndices ps) = {i. i < length ps \<and> team (ps ! i) \<noteq> None}"
  by (auto simp: teamedIndices_def)

lemma length_checkCollisions [simp]: "length (players (checkCollisions r)) = length (players r)"
  by (simp add: checkCollisions_def split_beta Let_def)

lemma checkCollisions_more:
  assumes "i < length (players r)"
  shows "body.more (players (checkCollisions r) ! i) = body.more (players r ! i)"
  using assms by (simp add: checkCollisions_def split_beta Let_def collidePairs_more collideBall_more)

lemma checkCollisions_teamless:
  assumes "i < length (players r)" and "team (players r ! i) = None"
  shows "players (checkCollisions r) ! i = players r ! i"
proof -
  let ?ps1 = "fst (collideBall (players r) (ball (gameState r)))"
  have a: "?ps1 ! i = players r ! i" using assms by (rule collideBall_teamless)
  then have "i \<notin> set (teamedIndices ?ps1)" using assms by (simp add: set_teamedIndices)
  then have "collidePairs (teamedIndices ?ps1) ?ps1 ! i = ?ps1 ! i" by (rule collidePairs_untouched)
  with a show ?thesis by (simp add: checkCollisions_def split_beta Let_def)
qed

lemma checkCollisions_score [simp]:
  "score (gameState (checkCollisions r)) = score (gameState r)"
  by (simp add: checkCollisions_def split_beta Let_def)

lemma length_motionPhase [simp]: "length (players (motionPhase r now clock)) = length (players r)"
  by (simp add: motionPhase_def Let_def)

lemma motionPhase_nth:
  assumes "i < length (players r)"
  shows "players (motionPhase r now clock) ! i =
     (if team (players r ! i) \<noteq> None \<and> isActive (players r ! i) (clock i)
      then updatePlayer (players r ! i) (input (players r ! i))
             (real_of_int (now - lastUpdate (gameState r)) / (1667 / 100))
      else players r ! i)"
  using updatePlayers_nth[OF assms, of clock 0] by (simp add: motionPhase_def Let_def)

lemma motionPhase_more:
  assumes "i < length (players r)"
  shows "body.more (players (motionPhase r now clock) ! i) = body.more (players r ! i)"
  by (simp add: motionPhase_nth[OF assms])

lemma motionPhase_score [simp]:
  "score (gameState (motionPhase r now clock)) = score (gameState r)"
  by (simp add: motionPhase_def Let_def)

lemma length_collisionPhase [simp]:
  "length (players (collisionPhase r now clock)) = length (players r)"
  by (simp add: collisionPhase_def)

lemma collisionPhase_more:
  assumes "i < length (players r)"
  shows "body.more (players (collisionPhase r now clock) ! i) = body.more (players r ! i)"
  using assms by (simp add: collisionPhase_def checkCollisions_more motionPhase_more)

lemma collisionPhase_teamless:
  assumes "i < length (players r)" and "team (players r ! i) = None"
  shows "players (collisionPhase r now clock) ! i = players r ! i"
proof -
  have "players (motionPhase r now clock) ! i = players r ! i"
    using assms by (simp add: motionPhase_nth)
  then show ?thesis
    using assms checkCollisions_teamless[of i "motionPhase r now clock"]
    by (simp add: collisionPhase_def)
qed

lemma collisionPhase_score [simp]:
  "score (gameState (collisionPhase r now clock)) = score (gameState r)"
  by (simp add: collisionPhase_def)

section \<open>Evaluating a tick on a concrete room\<close>

lemma sqrt_less_numeral:
  "0 < b \<Longrightarrow> (sqrt a < b) = (a < b * b)"
  by (metis abs_of_pos real_sqrt_abs2 real_sqrt_less_iff)

lemma sqrt_ge_numeral:
  "0 < b \<Longrightarrow> (b \<le> sqrt a) = (b * b \<le> a)"
  using sqrt_less_numeral[of b a] by (simp add: not_less[symmetric])

lemmas step_defs =
  motionPhase_def collisionPhase_def checkCollisions_def teamedIndices_def
  updatePlayer_stages updateBall_stages constrainToBounds_walls
  applyInput_def limitSpeed_def advance_def wallLeft_def wallRight_def wallTop_def wallBottom_def
  checkCollision_def resolveCollision_def
  distance_def normalize_def dotProduct_def isActive_def
  setTeam_def newPlayer_def
  friction_def bounceRestitution_def playerRadius_def ballRadius_def maxSpeed_def acceleration_def
  fieldWidth_def fieldHeight_def goalHeight_def goalDepth_def goalTop_def goalBottom_def
  Let_def split_beta sqrt_less_numeral sqrt_ge_numeral



lemma goalRoom_collision:
  "ball (gameState (collisionPhase goalRoom 17 (\<lambda>i. 17))) = \<lparr>x = - 4995 / 1667, y = 200, vx = - 588 / 100, vy = 0\<rparr>"
  by (simp add: goalRoom_def step_defs)

section \<open>Goal handling\<close>

lemma handleGoal_effect:
  "score (gameState (handleGoal r t)) = scoreAfterGoal t (score (gameState r))
   \<and> ball (gameState (handleGoal r t)) = \<lparr>x = 400, y = 200, vx = 0, vy = 0\<rparr>
   \<and> players (handleGoal r t) = map (\<lambda>p. if team p \<noteq> None then resetPosition p else p) (players r)"
  by (cases t) (simp_all add: handleGoal_def scoreAfterGoal_def resetBall_def Let_def)

lemma kickoff_resetPosition:
  assumes "body.more p1 = body.more p" and "team p = None \<longrightarrow> p1 = p"
  shows "kickoff p (if team p1 \<noteq> None then resetPosition p1 else p1)"
proof -
  have t: "team p1 = team p" using more_fields[OF assms(1)] by simp
  show ?thesis
  proof (cases "team p")
    case None
    with assms t show ?thesis by (simp add: kickoff_def)
  next
    case (Some c)
    with assms(1) t show ?thesis
      by (cases c) (simp_all add: kickoff_def resetPosition_def)
  qed
qed

text \<open>
  Claim C8. When the goal check of a tick detects a goal of team \<open>t\<close>, the tick ends with
  the score of \<open>t\<close> one higher and the other score as before the tick, the ball at
  (400, 200) at rest, every Red player at (100, 200) and every Blue player at (700, 200) at
  rest, every spectator exactly as before the tick, and every other field of every player
  (its own score included) as before the tick.
\<close>

theorem goal_tick_effect:
  assumes "checkGoal (ball (gameState (collisionPhase r now clock))) = Some t"
  shows "score (gameState (updateGame r now clock)) = scoreAfterGoal t (score (gameState r))
   \<and> ball (gameState (updateGame r now clock)) = \<lparr>x = 400, y = 200, vx = 0, vy = 0\<rparr>
   \<and> length (players (updateGame r now clock)) = length (players r)
   \<and> (\<forall>i < length (players r). kickoff (players r ! i) (players (updateGame r now clock) ! i))"
proof -
  let ?r1 = "collisionPhase r now clock"
  have ug: "updateGame r now clock =
      (handleGoal ?r1 t)\<lparr>gameState := (gameState (handleGoal ?r1 t))
         \<lparr>gameTime := gameTime (gameState (handleGoal ?r1 t)) + (now - lastUpdate (gameState r))\<rparr>\<rparr>"
    using assms by (simp add: updateGame_def Let_def)
  have k: "kickoff (players r ! i) (players (updateGame r now clock) ! i)"
    if "i < length (players r)" for i
    using that kickoff_resetPosition[OF collisionPhase_more[OF that, of now clock], of ]
          collisionPhase_teamless[OF that, of now clock]
    by (simp add: ug handleGoal_effect)
  show ?thesis using k by (simp add: ug handleGoal_effect)
qed

theorem goal_tick_effect_witness:
  "checkGoal (ball (gameState (collisionPhase goalRoom 17 (\<lambda>i. 17)))) = Some Blue
   \<and> score (gameState (updateGame goalRoom 17 (\<lambda>i. 17))) = \<lparr>red = 2, blue = 2\<rparr>
   \<and> ball (gameState (updateGame goalRoom 17 (\<lambda>i. 17))) = \<lparr>x = 400, y = 200, vx = 0, vy = 0\<rparr>
   \<and> kickoff (players goalRoom ! 0) (players (updateGame goalRoom 17 (\<lambda>i. 17)) ! 0)
   \<and> kickoff (players goalRoom ! 1) (players (updateGame goalRoom 17 (\<lambda>i. 17)) ! 1)
   \<and> kickoff (players goalRoom ! 2) (players (updateGame goalRoom 17 (\<lambda>i. 17)) ! 2)"
proof -
  have g: "checkGoal (ball (gameState (collisionPhase goalRoom 17 (\<lambda>i. 17)))) = Some Blue"
    by (simp add: goalRoom_collision checkGoal_def goalTop_def goalBottom_def fieldHeight_def
          goalHeight_def)
  have n: "length (players goalRoom) = 3" by (simp add: goalRoom_def)
  have s: "scoreAfterGoal Blue (score (gameState goalRoom)) = \<lparr>red = 2, blue = 2\<rparr>"
    by (simp add: scoreAfterGoal_def goalRoom_def)
  from goal_tick_effect[OF g] show ?thesis using g n s by simp
qed

section \<open>Ticks without contact\<close>






lemma updateGame_players:
  "players (updateGame r now clock) =
     (case checkGoal (ball (gameState (collisionPhase r now clock))) of
        Some t \<Rightarrow> map (\<lambda>p. if team p \<noteq> None then resetPosition p else p)
                    (players (collisionPhase r now clock))
      | None \<Rightarrow> players (collisionPhase r now clock))"
  by (simp add: updateGame_def handleGoal_def Let_def split: option.splits)





section \<open>The speed cap\<close>

















section \<open>The field bounds\<close>
















section \<open>Frozen players\<close>

lemma checkCollision_lastSeen [simp]:
  "checkCollision (p\<lparr>lastSeen := t\<rparr>) b ra rb = checkCollision p b ra rb"
  "checkCollision a (q\<lparr>lastSeen := t\<rparr>) ra rb = checkCollision a q ra rb"
  by (simp_all add: checkCollision_def distance_def)

lemma resolveCollision_lastSeen_fst:
  fixes p :: player
  shows "resolveCollision (p\<lparr>lastSeen := t\<rparr>) b ra rb m1 m2 =
     ((fst (resolveCollision p b ra rb m1 m2))\<lparr>lastSeen := t\<rparr>, snd (resolveCollision p b ra rb m1 m2))"
  by (simp add: resolveCollision_def distance_def Let_def)

lemma resolveCollision_lastSeen_snd:
  fixes q :: player
  shows "resolveCollision a (q\<lparr>lastSeen := t\<rparr>) ra rb m1 m2 =
     (fst (resolveCollision a q ra rb m1 m2), (snd (resolveCollision a q ra rb m1 m2))\<lparr>lastSeen := t\<rparr>)"
  by (simp add: resolveCollision_def distance_def Let_def)

lemma collideBall_refresh:
  "collideBall (refresh t ps) b = (refresh t (fst (collideBall ps b)), snd (collideBall ps b))"
proof (induction ps arbitrary: b)
  case Nil
  show ?case by (simp add: refresh_def)
next
  case (Cons p ps)
  have IH: "collideBall (map (\<lambda>p. p\<lparr>lastSeen := t\<rparr>) ps) b' =
      (map (\<lambda>p. p\<lparr>lastSeen := t\<rparr>) (fst (collideBall ps b')), snd (collideBall ps b'))" for b'
    using Cons.IH[of b'] by (simp add: refresh_def)
  show ?case
    by (simp add: refresh_def IH resolveCollision_lastSeen_fst split_beta Let_def)
qed

lemma teamedIndices_refresh [simp]: "teamedIndices (refresh t ps) = teamedIndices ps"
  unfolding teamedIndices_def refresh_def
  by (rule filter_cong) simp_all

lemma length_refresh [simp]: "length (refresh t ps) = length ps"
  by (simp add: refresh_def)

lemma refresh_update: "refresh t (ps[i := p]) = (refresh t ps)[i := p\<lparr>lastSeen := t\<rparr>]"
  by (simp add: refresh_def map_update)

lemma refresh_nth: "i < length ps \<Longrightarrow> refresh t ps ! i = (ps ! i)\<lparr>lastSeen := t\<rparr>"
  by (simp add: refresh_def)

lemma collideWith_refresh:
  "i < length ps \<Longrightarrow> \<forall>j \<in> set js. j < length ps \<Longrightarrow>
   collideWith i js (refresh t ps) = refresh t (collideWith i js ps)"
proof (induction js arbitrary: ps)
  case Nil
  show ?case by simp
next
  case (Cons j js)
  let ?R = "resolveCollision (ps ! i) (ps ! j) 15 15 1 1"
  let ?ps' = "if checkCollision (ps ! i) (ps ! j) 15 15 then ps[i := fst ?R, j := snd ?R] else ps"
  have len: "length ?ps' = length ps" by simp
  have step: "(if checkCollision (refresh t ps ! i) (refresh t ps ! j) 15 15
        then (let (p1, p2) = resolveCollision (refresh t ps ! i) (refresh t ps ! j) 15 15 1 1
              in (refresh t ps)[i := p1, j := p2])
        else refresh t ps) = refresh t ?ps'"
    using Cons.prems
    by (simp add: refresh_nth refresh_update resolveCollision_lastSeen_fst
          resolveCollision_lastSeen_snd split_beta)
  have "collideWith i (j # js) (refresh t ps) = collideWith i js (refresh t ?ps')"
    using step by (simp add: split_beta)
  also have "\<dots> = refresh t (collideWith i js ?ps')"
    using Cons.IH[of ?ps'] Cons.prems len by simp
  also have "\<dots> = refresh t (collideWith i (j # js) ps)" by (simp add: split_beta)
  finally show ?case .
qed

lemma collidePairs_refresh:
  "\<forall>j \<in> set js. j < length ps \<Longrightarrow>
   collidePairs js (refresh t ps) = refresh t (collidePairs js ps)"
proof (induction js arbitrary: ps)
  case Nil
  show ?case by simp
next
  case (Cons i js)
  from Cons.prems have a: "i < length ps" "\<forall>j \<in> set js. j < length ps" by simp_all
  from Cons.IH[of "collideWith i js ps"] a collideWith_refresh[OF a, of t]
  show ?case by simp
qed

lemma checkCollisions_refresh:
  "players (checkCollisions (r\<lparr>players := refresh t (players r)\<rparr>)) = refresh t (players (checkCollisions r))
   \<and> ball (gameState (checkCollisions (r\<lparr>players := refresh t (players r)\<rparr>))) = ball (gameState (checkCollisions r))"
proof -
  let ?ps1 = "fst (collideBall (players r) (ball (gameState r)))"
  have "\<forall>j \<in> set (teamedIndices ?ps1). j < length ?ps1"
    by (simp add: set_teamedIndices)
  from collidePairs_refresh[OF this, of t] show ?thesis
    by (simp add: checkCollisions_def collideBall_refresh split_beta Let_def)
qed

lemma collideBall_swap_teamless:
  "i < length ps \<Longrightarrow> team (ps ! i) = None \<Longrightarrow> team q = None \<Longrightarrow>
   collideBall (ps[i := q]) b = ((fst (collideBall ps b))[i := q], snd (collideBall ps b))"
proof (induction ps arbitrary: i b)
  case Nil
  then show ?case by simp
next
  case (Cons p ps)
  show ?case
  proof (cases i)
    case 0
    with Cons.prems show ?thesis by (simp add: split_beta Let_def)
  next
    case (Suc i')
    with Cons.prems have "i' < length ps" "team (ps ! i') = None" by simp_all
    from Cons.IH[OF this Cons.prems(3)] Suc show ?thesis by (simp add: split_beta Let_def)
  qed
qed

lemma teamedIndices_swap_teamless:
  assumes "i < length ps" "team (ps ! i) = None" "team q = None"
  shows "teamedIndices (ps[i := q]) = teamedIndices ps"
  unfolding teamedIndices_def
proof (rule filter_cong)
  show "[0..<length (ps[i := q])] = [0..<length ps]" by simp
next
  fix k assume "k \<in> set [0..<length ps]"
  then show "(team (ps[i := q] ! k) \<noteq> None) = (team (ps ! k) \<noteq> None)"
    using assms by (cases "k = i") simp_all
qed

lemma collideWith_swap:
  "i \<noteq> k \<Longrightarrow> i \<notin> set js \<Longrightarrow>
   collideWith k js (ps[i := q]) = (collideWith k js ps)[i := q]"
proof (induction js arbitrary: ps)
  case Nil
  show ?case by simp
next
  case (Cons j js)
  then have ne: "i \<noteq> k" "i \<noteq> j" "i \<notin> set js" by auto
  let ?R = "resolveCollision (ps ! k) (ps ! j) 15 15 1 1"
  let ?ps' = "if checkCollision (ps ! k) (ps ! j) 15 15 then ps[k := fst ?R, j := snd ?R] else ps"
  have sw: "ps[i := q, k := a, j := b] = ps[k := a, j := b, i := q]" for a b
    using ne by (metis list_update_swap)
  have "collideWith k (j # js) (ps[i := q]) = collideWith k js (?ps'[i := q])"
    using ne by (simp add: split_beta sw)
  also have "\<dots> = (collideWith k js ?ps')[i := q]"
    using Cons.IH[of ?ps'] ne by simp
  also have "\<dots> = (collideWith k (j # js) ps)[i := q]" by (simp add: split_beta)
  finally show ?case .
qed

lemma collidePairs_swap:
  "i \<notin> set js \<Longrightarrow> collidePairs js (ps[i := q]) = (collidePairs js ps)[i := q]"
proof (induction js arbitrary: ps)
  case Nil
  show ?case by simp
next
  case (Cons k js)
  then have ne: "i \<noteq> k" "i \<notin> set js" by auto
  from Cons.IH[of "collideWith k js ps"] ne collideWith_swap[OF ne, of ps q]
  show ?case by simp
qed

lemma checkCollisions_swap_teamless:
  assumes "i < length (players r)" "team (players r ! i) = None" "team q = None"
  shows "players (checkCollisions (r\<lparr>players := (players r)[i := q]\<rparr>)) = (players (checkCollisions r))[i := q]
   \<and> ball (gameState (checkCollisions (r\<lparr>players := (players r)[i := q]\<rparr>))) = ball (gameState (checkCollisions r))"
proof -
  let ?b = "ball (gameState r)"
  let ?ps1 = "fst (collideBall (players r) ?b)"
  have cb: "collideBall ((players r)[i := q]) ?b = (?ps1[i := q], snd (collideBall (players r) ?b))"
    using assms by (rule collideBall_swap_teamless)
  have i1: "i < length ?ps1" using assms(1) by simp
  have t1: "team (?ps1 ! i) = None"
    using collideBall_teamless[OF assms(1,2), of ?b] assms(2) by simp
  have ti: "teamedIndices (?ps1[i := q]) = teamedIndices ?ps1"
    using i1 t1 assms(3) by (rule teamedIndices_swap_teamless)
  have "i \<notin> set (teamedIndices ?ps1)" using t1 by (simp add: set_teamedIndices)
  from collidePairs_swap[OF this, of ?ps1 q] show ?thesis
    by (simp add: checkCollisions_def cb ti split_beta Let_def)
qed

lemma updateGame_teamless:
  assumes "i < length (players r)" and "team (players r ! i) = None"
  shows "players (updateGame r now clock) ! i = players r ! i"
  using assms collisionPhase_teamless[OF assms, of now clock]
  by (simp add: updateGame_players split: option.splits)

lemma teamedIndices_Cons:
  "teamedIndices (p # ps) = (if team p \<noteq> None then [0] else []) @ map Suc (teamedIndices ps)"
proof -
  have "[0..<length (p # ps)] = 0 # map Suc [0..<length ps]"
    by (simp add: upt_conv_Cons map_Suc_upt del: upt_Suc)
  then show ?thesis
    by (simp add: teamedIndices_def filter_map comp_def del: upt_Suc)
qed

lemma fold_ball_contacts:
  "fold resolveContact (map (\<lambda>i. BallContact (length pre + i)) (teamedIndices ps)) (pre @ ps, b)
     = (pre @ fst (collideBall ps b), snd (collideBall ps b))"
proof (induction ps arbitrary: pre b)
  case Nil
  show ?case by (simp add: teamedIndices_def)
next
  case (Cons p ps)
  let ?hit = "team p \<noteq> None \<and> checkCollision p b 15 10"
  let ?p' = "if ?hit then fst (resolveCollision p b 15 10 1 (5 / 10)) else p"
  let ?b' = "if ?hit then snd (resolveCollision p b 15 10 1 (5 / 10)) else b"
  have shift: "map (\<lambda>i. BallContact (length pre + i)) (map Suc (teamedIndices ps))
      = map (\<lambda>i. BallContact (length (pre @ [?p']) + i)) (teamedIndices ps)"
    by (simp add: comp_def)
  have first: "fold resolveContact
        (map (\<lambda>i. BallContact (length pre + i)) (if team p \<noteq> None then [0] else []))
        (pre @ p # ps, b) = ((pre @ [?p']) @ ps, ?b')"
    by (simp add: split_beta)
  have "fold resolveContact (map (\<lambda>i. BallContact (length pre + i)) (teamedIndices (p # ps)))
          (pre @ p # ps, b)
      = fold resolveContact (map (\<lambda>i. BallContact (length (pre @ [?p']) + i)) (teamedIndices ps))
          ((pre @ [?p']) @ ps, ?b')"
    unfolding teamedIndices_Cons map_append fold_append comp_apply first shift ..
  also have "\<dots> = ((pre @ [?p']) @ fst (collideBall ps ?b'), snd (collideBall ps ?b'))"
    by (rule Cons.IH)
  also have "\<dots> = (pre @ fst (collideBall (p # ps) b), snd (collideBall (p # ps) b))"
    by (simp add: split_beta Let_def)
  finally show ?case .
qed

lemma fold_ball_loop:
  "fold resolveContact (map BallContact (teamedIndices ps)) (ps, b) = collideBall ps b"
  using fold_ball_contacts[of "[]" ps b] by simp

lemma fold_collideWith:
  "fold resolveContact (map (PairContact i) js) (ps, b) = (collideWith i js ps, b)"
  by (induction js arbitrary: ps) (simp_all add: split_beta)

lemma fold_pair_loop:
  "fold resolveContact (map (\<lambda>(i, j). PairContact i j) (pairsOf js)) (ps, b)
     = (collidePairs js ps, b)"
proof (induction js arbitrary: ps)
  case Nil
  show ?case by simp
next
  case (Cons i js)
  have "(\<lambda>(i, j). PairContact i j) \<circ> Pair i = PairContact i" by (simp add: fun_eq_iff)
  then show ?case by (simp add: fold_collideWith Cons.IH)
qed

lemma teamedIndices_collideBall [simp]:
  "teamedIndices (fst (collideBall ps b)) = teamedIndices ps"
  unfolding teamedIndices_def
proof (rule filter_cong)
  show "[0..<length (fst (collideBall ps b))] = [0..<length ps]" by simp
next
  fix i assume "i \<in> set [0..<length ps]"
  then have "i < length ps" by simp
  from more_fields[OF collideBall_more[OF this, of b]]
  show "(team (fst (collideBall ps b) ! i) \<noteq> None) = (team (ps ! i) \<noteq> None)" by simp
qed

lemma checkCollisions_contacts:
  "(players (checkCollisions r), ball (gameState (checkCollisions r)))
     = fold resolveContact (contacts (players r)) (players r, ball (gameState r))"
proof -
  let ?ps = "players r" and ?b = "ball (gameState r)"
  have "fold resolveContact (contacts ?ps) (?ps, ?b)
      = fold resolveContact (map (\<lambda>(i, j). PairContact i j) (pairsOf (teamedIndices ?ps)))
          (fst (collideBall ?ps ?b), snd (collideBall ?ps ?b))"
    by (simp add: contacts_def fold_ball_loop)
  also have "\<dots> = (collidePairs (teamedIndices ?ps) (fst (collideBall ?ps ?b)), snd (collideBall ?ps ?b))"
    by (rule fold_pair_loop)
  finally show ?thesis
    by (simp add: checkCollisions_def split_beta Let_def)
qed

lemma sorted_teamedIndices: "sorted_wrt (<) (teamedIndices ps)"
  unfolding teamedIndices_def by (rule sorted_wrt_filter) (simp add: sorted_wrt_upt del: upt_Suc)

lemma set_pairsOf:
  "sorted_wrt (<) js \<Longrightarrow> set (pairsOf js) = {(i, j). i \<in> set js \<and> j \<in> set js \<and> i < j}"
  by (induction js) auto

lemma set_contacts:
  "set (contacts ps) =
     {BallContact i | i. i < length ps \<and> team (ps ! i) \<noteq> None}
     \<union> {PairContact i j | i j. i < j \<and> j < length ps \<and> team (ps ! i) \<noteq> None \<and> team (ps ! j) \<noteq> None}"
  unfolding contacts_def set_append set_map set_pairsOf[OF sorted_teamedIndices] set_teamedIndices
  by (auto simp: image_iff)

lemma teamedIndices_motionPhase [simp]:
  "teamedIndices (players (motionPhase r now clock)) = teamedIndices (players r)"
  unfolding teamedIndices_def
proof (rule filter_cong)
  show "[0..<length (players (motionPhase r now clock))] = [0..<length (players r)]" by simp
next
  fix i assume "i \<in> set [0..<length (players r)]"
  then have "i < length (players r)" by simp
  from more_fields[OF motionPhase_more[OF this, of now clock]]
  show "(team (players (motionPhase r now clock) ! i) \<noteq> None) = (team (players r ! i) \<noteq> None)"
    by simp
qed

lemma collisionPhase_contacts:
  "(players (collisionPhase r now clock), ball (gameState (collisionPhase r now clock)))
     = fold resolveContact (contacts (players r))
         (players (motionPhase r now clock), ball (gameState (motionPhase r now clock)))"
  using checkCollisions_contacts[of "motionPhase r now clock"]
  by (simp add: collisionPhase_def contacts_def)

text \<open>
  Claim C2, as amended. In every tick a player without a team, and a teamed player whose
  last input is older than the 5-second window, receives no motion update. The collision
  pass resolves, in order, the contacts of the room: the ball against each teamed player,
  then each unordered pair of teamed players, whatever their activity; the tick runs it on
  the state its motion step leaves, and the pass gives the same result when every player's
  \<open>lastSeen\<close> is replaced by one value. A player without a team is in no contact: the pass
  and the whole tick leave that player unchanged, and replacing the player by any other
  teamless player changes neither the ball nor any other player.
\<close>

theorem frozen_players_tick:
  "(\<forall>i < length (players r).
      (team (players r ! i) = None \<or> \<not> isActive (players r ! i) (clock i)
         \<longrightarrow> players (motionPhase r now clock) ! i = players r ! i)
      \<and> (team (players r ! i) = None
         \<longrightarrow> players (checkCollisions r) ! i = players r ! i
             \<and> players (updateGame r now clock) ! i = players r ! i
             \<and> (\<forall>q. team q = None \<longrightarrow>
                   players (checkCollisions (r\<lparr>players := (players r)[i := q]\<rparr>))
                     = (players (checkCollisions r))[i := q]
                   \<and> ball (gameState (checkCollisions (r\<lparr>players := (players r)[i := q]\<rparr>)))
                     = ball (gameState (checkCollisions r)))))
   \<and> players (checkCollisions (r\<lparr>players := refresh t (players r)\<rparr>))
        = refresh t (players (checkCollisions r))
   \<and> ball (gameState (checkCollisions (r\<lparr>players := refresh t (players r)\<rparr>)))
        = ball (gameState (checkCollisions r))
   \<and> (players (checkCollisions r), ball (gameState (checkCollisions r)))
        = fold resolveContact (contacts (players r)) (players r, ball (gameState r))
   \<and> (players (collisionPhase r now clock), ball (gameState (collisionPhase r now clock)))
        = fold resolveContact (contacts (players r))
            (players (motionPhase r now clock), ball (gameState (motionPhase r now clock)))
   \<and> set (contacts (players r)) =
        {BallContact i | i. i < length (players r) \<and> team (players r ! i) \<noteq> None}
        \<union> {PairContact i j | i j. i < j \<and> j < length (players r)
              \<and> team (players r ! i) \<noteq> None \<and> team (players r ! j) \<noteq> None}"
proof -
  have frozen: "players (motionPhase r now clock) ! i = players r ! i"
    if "i < length (players r)" "team (players r ! i) = None \<or> \<not> isActive (players r ! i) (clock i)"
    for i
    using that by (auto simp: motionPhase_nth)
  have old: "(\<forall>i < length (players r).
      (team (players r ! i) = None \<or> \<not> isActive (players r ! i) (clock i)
         \<longrightarrow> players (motionPhase r now clock) ! i = players r ! i)
      \<and> (team (players r ! i) = None
         \<longrightarrow> players (checkCollisions r) ! i = players r ! i
             \<and> players (updateGame r now clock) ! i = players r ! i
             \<and> (\<forall>q. team q = None \<longrightarrow>
                   players (checkCollisions (r\<lparr>players := (players r)[i := q]\<rparr>))
                     = (players (checkCollisions r))[i := q]
                   \<and> ball (gameState (checkCollisions (r\<lparr>players := (players r)[i := q]\<rparr>)))
                     = ball (gameState (checkCollisions r)))))
   \<and> players (checkCollisions (r\<lparr>players := refresh t (players r)\<rparr>))
        = refresh t (players (checkCollisions r))
   \<and> ball (gameState (checkCollisions (r\<lparr>players := refresh t (players r)\<rparr>)))
        = ball (gameState (checkCollisions r))"
    using frozen checkCollisions_teamless[of _ r] updateGame_teamless[of _ r now clock]
      checkCollisions_swap_teamless[of _ r] checkCollisions_refresh[of t r]
    by blast
  note a = old[THEN conjunct1] and b = old[THEN conjunct2, THEN conjunct1]
    and c = old[THEN conjunct2, THEN conjunct2]
  note d = checkCollisions_contacts[of r] and e = collisionPhase_contacts[of r now clock]
    and f = set_contacts[of "players r"]
  show ?thesis
    by (rule conjI[OF a conjI[OF b conjI[OF c conjI[OF d conjI[OF e f]]]]])
qed

lemma idleRoom_tick:
  "players (updateGame idleRoom 6000 (\<lambda>i. 6000)) =
     [(players idleRoom ! 0)\<lparr>x := 400, y := 85 / 2\<rparr>, players idleRoom ! 1]
   \<and> ball (gameState (updateGame idleRoom 6000 (\<lambda>i. 6000))) = \<lparr>x = 400, y = 135 / 2, vx = 0, vy = 0\<rparr>"
  by (simp add: idleRoom_def updateGame_def checkGoal_def step_defs)

lemma idleRoom_contacts: "contacts (players idleRoom) = [BallContact 0]"
  by (simp add: contacts_def teamedIndices_def idleRoom_def setTeam_def newPlayer_def Let_def)

lemma idleRoom_resolved:
  "fold resolveContact [BallContact 0] (players idleRoom, ball (gameState idleRoom))
     = ([(players idleRoom ! 0)\<lparr>x := 400, y := 85 / 2\<rparr>, players idleRoom ! 1],
        \<lparr>x = 400, y = 135 / 2, vx = 0, vy = 0\<rparr>)"
  by (simp add: idleRoom_def step_defs)

theorem frozen_players_tick_witness:
  "(1::nat) < length (players idleRoom)
   \<and> team (players idleRoom ! 0) \<noteq> None \<and> \<not> isActive (players idleRoom ! 0) 6000
   \<and> players (motionPhase idleRoom 6000 (\<lambda>i. 6000)) ! 0 = players idleRoom ! 0
   \<and> team (players idleRoom ! 1) = None
   \<and> players (motionPhase idleRoom 6000 (\<lambda>i. 6000)) ! 1 = players idleRoom ! 1
   \<and> players (updateGame idleRoom 6000 (\<lambda>i. 6000)) ! 1 = players idleRoom ! 1
   \<and> ball (gameState (checkCollisions
          (idleRoom\<lparr>players := (players idleRoom)[1 := setTeam (newPlayer ''s2'' ''Cem'' 0) None]\<rparr>)))
       = ball (gameState (checkCollisions idleRoom))
   \<and> contacts (players idleRoom) = [BallContact 0]
   \<and> (players (checkCollisions idleRoom), ball (gameState (checkCollisions idleRoom)))
       = ([(players idleRoom ! 0)\<lparr>x := 400, y := 85 / 2\<rparr>, players idleRoom ! 1],
          \<lparr>x = 400, y = 135 / 2, vx = 0, vy = 0\<rparr>)"
proof -
  have a: "(1::nat) < length (players idleRoom) \<and> (0::nat) < length (players idleRoom)
     \<and> team (players idleRoom ! 0) \<noteq> None \<and> \<not> isActive (players idleRoom ! 0) 6000
     \<and> team (players idleRoom ! 1) = None"
    by (simp add: idleRoom_def isActive_def setTeam_def newPlayer_def Let_def)
  have q: "team (setTeam (newPlayer ''s2'' ''Cem'' 0) None) = None" by simp
  note whole = frozen_players_tick[of idleRoom "\<lambda>i. 6000" 6000 0]
  note th = whole[THEN conjunct1, rule_format]
  from a have l0: "(0::nat) < length (players idleRoom)" and l1: "(1::nat) < length (players idleRoom)"
    by simp_all
  from th[OF l0] a have m0: "players (motionPhase idleRoom 6000 (\<lambda>i. 6000)) ! 0 = players idleRoom ! 0"
    by simp
  from th[OF l1] a have m1: "players (motionPhase idleRoom 6000 (\<lambda>i. 6000)) ! 1 = players idleRoom ! 1"
    and u1: "players (updateGame idleRoom 6000 (\<lambda>i. 6000)) ! 1 = players idleRoom ! 1"
    and s1: "\<forall>q. team q = None \<longrightarrow>
           players (checkCollisions (idleRoom\<lparr>players := (players idleRoom)[1 := q]\<rparr>)) =
           (players (checkCollisions idleRoom))[1 := q] \<and>
           ball (gameState (checkCollisions (idleRoom\<lparr>players := (players idleRoom)[1 := q]\<rparr>))) =
           ball (gameState (checkCollisions idleRoom))"
    by simp_all
  from s1 q have s: "ball (gameState (checkCollisions
          (idleRoom\<lparr>players := (players idleRoom)[1 := setTeam (newPlayer ''s2'' ''Cem'' 0) None]\<rparr>)))
       = ball (gameState (checkCollisions idleRoom))"
    by blast
  have c: "(players (checkCollisions idleRoom), ball (gameState (checkCollisions idleRoom)))
       = ([(players idleRoom ! 0)\<lparr>x := 400, y := 85 / 2\<rparr>, players idleRoom ! 1],
          \<lparr>x = 400, y = 135 / 2, vx = 0, vy = 0\<rparr>)"
    using whole[THEN conjunct2, THEN conjunct2, THEN conjunct2, THEN conjunct1]
    by (simp only: idleRoom_contacts idleRoom_resolved)
  from a m0 m1 u1 s c idleRoom_contacts show ?thesis by simp
qed

text \<open>
  The claim as first stated also has the players without a team collide like active teamed
  players. In \<open>idleRoom\<close> the inactive Red player and the spectator stand on the same point
  and overlap the ball; the tick pushes the Red player and the ball apart and leaves the
  spectator where it was, still overlapping the ball.
\<close>

theorem spectator_not_collided:
  "team (players idleRoom ! 0) \<noteq> None \<and> \<not> isActive (players idleRoom ! 0) 6000
   \<and> team (players idleRoom ! 1) = None
   \<and> x (players idleRoom ! 0) = x (players idleRoom ! 1)
   \<and> y (players idleRoom ! 0) = y (players idleRoom ! 1)
   \<and> checkCollision (players idleRoom ! 1) (ball (gameState idleRoom)) 15 10
   \<and> y (players (updateGame idleRoom 6000 (\<lambda>i. 6000)) ! 0) = 85 / 2
   \<and> players (updateGame idleRoom 6000 (\<lambda>i. 6000)) ! 1 = players idleRoom ! 1
   \<and> ball (gameState (updateGame idleRoom 6000 (\<lambda>i. 6000))) = \<lparr>x = 400, y = 135 / 2, vx = 0, vy = 0\<rparr>
   \<and> checkCollision (players (updateGame idleRoom 6000 (\<lambda>i. 6000)) ! 1)
         (ball (gameState (updateGame idleRoom 6000 (\<lambda>i. 6000)))) 15 10"
proof -
  have a: "team (players idleRoom ! 0) \<noteq> None \<and> \<not> isActive (players idleRoom ! 0) 6000
   \<and> team (players idleRoom ! 1) = None
   \<and> x (players idleRoom ! 0) = x (players idleRoom ! 1)
   \<and> y (players idleRoom ! 0) = y (players idleRoom ! 1)
   \<and> checkCollision (players idleRoom ! 1) (ball (gameState idleRoom)) 15 10"
    by (simp add: idleRoom_def isActive_def setTeam_def newPlayer_def checkCollision_def
          distance_def Let_def)
  have b: "checkCollision (players idleRoom ! 1) \<lparr>x = 400, y = 135 / 2, vx = 0, vy = 0\<rparr> 15 10"
    by (simp add: idleRoom_def setTeam_def newPlayer_def checkCollision_def distance_def Let_def
          real_sqrt_divide)
  show ?thesis using a b by (simp add: idleRoom_tick)
qed

end
